theory Spec2Isabelle
  imports Main
begin

section \<open>JavaScript strings and numbers as the program uses them\<close>

text \<open>
  Strings are \<^typ>\<open>string\<close>; a character stands for one code unit below 256.
  \<open>String.prototype.trim\<close> strips the white space and line terminators of ECMAScript
  from both ends; below 256 these are TAB, LF, VT, FF, CR, SPACE and NBSP.
\<close>

definition isWhiteSpace :: "char \<Rightarrow> bool" where
  "isWhiteSpace c \<longleftrightarrow>
     c = CHR 0x09 \<or> c = CHR 0x0A \<or> c = CHR 0x0B \<or> c = CHR 0x0C \<or> c = CHR 0x0D
     \<or> c = CHR 0x20 \<or> c = CHR 0xA0"

definition trim :: "string \<Rightarrow> string" where
  "trim s = rev (dropWhile isWhiteSpace (rev (dropWhile isWhiteSpace s)))"

text \<open>
  \<open>toLowerCase\<close> maps A..Z and the upper-case letters of Latin-1 (0xC0..0xDE without
  the multiplication sign 0xD7) to the letter 32 code units above.
\<close>

definition toLowerChar :: "char \<Rightarrow> char" where
  "toLowerChar c =
     (let n = (of_char c :: nat)
      in if (65 \<le> n \<and> n \<le> 90) \<or> (192 \<le> n \<and> n \<le> 222 \<and> n \<noteq> 215)
         then char_of (n + 32) else c)"

definition toLowerCase :: "string \<Rightarrow> string" where
  "toLowerCase s = map toLowerChar s"

text \<open>
  \<open>parseInt(s, 10)\<close>: leading white space is skipped, one sign is read, then the
  longest run of decimal digits; no digit gives NaN, which is \<open>None\<close> here. Numbers are
  unbounded integers (the doubles of JavaScript are exact below \<open>2^53\<close>).
\<close>

definition isDigit :: "char \<Rightarrow> bool" where
  "isDigit c \<longleftrightarrow> 48 \<le> (of_char c :: nat) \<and> (of_char c :: nat) \<le> 57"

definition digitValue :: "char \<Rightarrow> int" where
  "digitValue c = int (of_char c) - 48"

definition parseInt :: "string \<Rightarrow> int option" where
  "parseInt s =
     (let t = dropWhile isWhiteSpace s;
          neg = (case t of [] \<Rightarrow> False | c # _ \<Rightarrow> c = CHR ''-'');
          u = (case t of [] \<Rightarrow> [] | c # r \<Rightarrow> if c = CHR ''-'' \<or> c = CHR ''+'' then r else t);
          ds = takeWhile isDigit u;
          v = foldl (\<lambda>a c. 10 * a + digitValue c) 0 ds
      in if ds = [] then None else Some (if neg then - v else v))"

text \<open>
  \<open>xs.slice(0, end)\<close>: NaN counts as 0, a negative end counts from the end of the
  array, an end beyond the length gives the whole array.
\<close>

definition slice0 :: "'a list \<Rightarrow> int option \<Rightarrow> 'a list" where
  "slice0 xs end' =
     (case end' of
        None \<Rightarrow> []
      | Some k \<Rightarrow> if k < 0 then take (nat (int (length xs) + k)) xs else take (nat k) xs)"

text \<open>
  \<open>process.env\<close>: a variable is unset (\<open>undefined\<close>) or holds a string.
  \<open>parseInt(undefined, 10)\<close> is NaN.
\<close>

type_synonym env = "string \<Rightarrow> string option"

definition parseIntEnv :: "string option \<Rightarrow> int option" where
  "parseIntEnv v = (case v of None \<Rightarrow> None | Some s \<Rightarrow> parseInt s)"

section \<open>databaseLoader.js\<close>

text \<open>
  A property of a row read by the loader is a string or some other JavaScript value;
  an element of the row array is an object or something else (\<open>null\<close>, a primitive).
\<close>

datatype jsval = JString string | JOther

record row =
  rowIndex :: nat
  username :: jsval
  source :: jsval
  status :: jsval
  message :: string

datatype entry = NonObject | Obj row

datatype loader_error =
    MissingSourceMode
  | InvalidSourceMode string
  | MissingMaxProcess
  | InvalidMaxProcess string
  | FallbackStatusRequired
  | LoadFailed string
  | NotAnArray
  | TypeError

definition VALID_SOURCE_MODES :: "string list" where
  "VALID_SOURCE_MODES =
     [''likes'', ''comments'', ''comment_free'', ''followers'', ''pod_guest'', ''all'']"

definition validateSourceMode :: "env \<Rightarrow> loader_error + string" where
  "validateSourceMode e =
     (case e ''SOURCE_MODE'' of
        None \<Rightarrow> Inl MissingSourceMode
      | Some sourceMode \<Rightarrow>
          if sourceMode = [] then Inl MissingSourceMode
          else let normalized = toLowerCase (trim sourceMode)
               in if normalized \<notin> set VALID_SOURCE_MODES then Inl (InvalidSourceMode sourceMode)
                  else Inr normalized)"

definition validateMaxProcess :: "env \<Rightarrow> loader_error + int" where
  "validateMaxProcess e =
     (case e ''MAX_PROCCESS'' of
        None \<Rightarrow> Inl MissingMaxProcess
      | Some maxProcess \<Rightarrow>
          if maxProcess = [] then Inl MissingMaxProcess
          else (case parseInt maxProcess of
                  None \<Rightarrow> Inl (InvalidMaxProcess maxProcess)
                | Some parsed \<Rightarrow>
                    if parsed < 1 then Inl (InvalidMaxProcess maxProcess) else Inr parsed))"

definition validateActivateStatus :: "env \<Rightarrow> string" where
  "validateActivateStatus e =
     (case e ''ACTIVATE_STATUS'' of
        None \<Rightarrow> ''Pending''
      | Some activateStatus \<Rightarrow>
          if activateStatus = [] \<or> trim activateStatus = [] then ''Pending''
          else trim activateStatus)"

definition parseEnableFallback :: "env \<Rightarrow> bool" where
  "parseEnableFallback e =
     (case e ''ENABLE_FALLBACK'' of
        None \<Rightarrow> False
      | Some enableFallbackRaw \<Rightarrow> toLowerCase (trim enableFallbackRaw) = ''true'')"

definition validateFallbackStatus :: "env \<Rightarrow> loader_error + string option" where
  "validateFallbackStatus e =
     (if \<not> parseEnableFallback e then Inr None
      else (case e ''FALLBACK_STATUS'' of
              None \<Rightarrow> Inl FallbackStatusRequired
            | Some fallbackStatus \<Rightarrow>
                if fallbackStatus = [] \<or> trim fallbackStatus = [] then Inl FallbackStatusRequired
                else Inr (Some (trim fallbackStatus))))"

definition statusMatches :: "string \<Rightarrow> entry \<Rightarrow> bool" where
  "statusMatches status' x =
     (case x of
        NonObject \<Rightarrow> False
      | Obj r \<Rightarrow> (case status r of JOther \<Rightarrow> False | JString rowStatus \<Rightarrow> trim rowStatus = status'))"

definition sourceMatches :: "string \<Rightarrow> entry \<Rightarrow> bool" where
  "sourceMatches sourceMode x =
     (case x of
        NonObject \<Rightarrow> False
      | Obj r \<Rightarrow>
          (case source r of
             JOther \<Rightarrow> False
           | JString rowSource \<Rightarrow> toLowerCase (trim rowSource) = sourceMode))"

text \<open>
  The deduplication loop of \<open>getEligibleRowsByStatus\<close>: \<open>seenUsernames\<close> is the Set,
  \<open>deduplicated\<close> the array the rows are pushed onto.
\<close>

fun dedupLoop :: "string set \<Rightarrow> entry list \<Rightarrow> entry list \<Rightarrow> entry list" where
  "dedupLoop seenUsernames deduplicated [] = deduplicated"
| "dedupLoop seenUsernames deduplicated (x # xs) =
     (case x of
        NonObject \<Rightarrow> dedupLoop seenUsernames deduplicated xs
      | Obj r \<Rightarrow>
          (case username r of
             JOther \<Rightarrow> dedupLoop seenUsernames deduplicated xs
           | JString u \<Rightarrow>
               if u = [] \<or> trim u = [] then dedupLoop seenUsernames deduplicated xs
               else let normalizedUsername = trim (toLowerCase u)
                    in if normalizedUsername \<in> seenUsernames
                       then dedupLoop seenUsernames deduplicated xs
                       else dedupLoop (insert normalizedUsername seenUsernames)
                              (deduplicated @ [x]) xs))"

definition getEligibleRowsByStatus ::
  "entry list \<Rightarrow> string \<Rightarrow> string \<Rightarrow> int option \<Rightarrow> string set \<Rightarrow> entry list" where
  "getEligibleRowsByStatus allRows status' sourceMode maxProcess excludeUsernames =
     (let statusFiltered = filter (statusMatches status') allRows;
          sourceFiltered = (if sourceMode = ''all'' then statusFiltered
                            else filter (sourceMatches sourceMode) statusFiltered);
          deduplicated = dedupLoop excludeUsernames [] sourceFiltered
      in slice0 deduplicated maxProcess)"

text \<open>
  \<open>row.username.toLowerCase().trim()\<close>, as \<open>loadFilteredDatabase\<close> evaluates it on the
  selected primary rows: a TypeError (\<open>None\<close>) where the username is not a string.
\<close>

definition usernameKey :: "entry \<Rightarrow> string option" where
  "usernameKey x =
     (case x of
        NonObject \<Rightarrow> None
      | Obj r \<Rightarrow> (case username r of JOther \<Rightarrow> None | JString u \<Rightarrow> Some (trim (toLowerCase u))))"

record stats =
  primaryEligible :: nat
  fallbackEligible :: nat
  selectedPrimary :: nat
  selectedFallback :: nat
  totalSelected :: nat

record filtered =
  rows :: "entry list"
  stats :: stats

text \<open>
  What \<open>await loadDatabaseRows()\<close> gives: it throws, or returns a value.
  In \<open>selectRows\<close>, the body of \<open>loadFilteredDatabase\<close> from stage 2 on, a
  \<open>fallbackStatus\<close> of \<open>null\<close> equals no trimmed row status, so no row is eligible.
\<close>

datatype load_result = LoadThrows string | LoadNonArray | LoadRows "entry list"

definition selectRows ::
  "entry list \<Rightarrow> string \<Rightarrow> string \<Rightarrow> int \<Rightarrow> bool \<Rightarrow> string option \<Rightarrow> int option
     \<Rightarrow> loader_error + filtered" where
  "selectRows allRows activateStatus sourceMode maxProcess enableFallback fallbackStatus maxDraft =
     (let primaryEligible' = getEligibleRowsByStatus allRows activateStatus sourceMode
                               (Some maxProcess) {};
          selectedPrimary' = slice0 primaryEligible' maxDraft
      in case those (map usernameKey selectedPrimary') of
           None \<Rightarrow> Inl TypeError
         | Some keys \<Rightarrow>
             let selectedPrimaryUsernames = set keys;
                 useFallback = (enableFallback \<and>
                    (case maxDraft of None \<Rightarrow> False
                     | Some m \<Rightarrow> int (length selectedPrimary') < m));
                 remaining = map_option (\<lambda>m. m - int (length selectedPrimary')) maxDraft;
                 fallbackEligible' =
                   (if useFallback
                    then (case fallbackStatus of
                            None \<Rightarrow> []
                          | Some f \<Rightarrow> getEligibleRowsByStatus allRows f sourceMode
                                        (Some maxProcess) selectedPrimaryUsernames)
                    else []);
                 selectedFallback' = (if useFallback then slice0 fallbackEligible' remaining else []);
                 finalRows = selectedPrimary' @ selectedFallback'
             in Inr \<lparr> rows = finalRows,
                      stats = \<lparr> primaryEligible = length primaryEligible',
                                fallbackEligible = length fallbackEligible',
                                selectedPrimary = length selectedPrimary',
                                selectedFallback = length selectedFallback',
                                totalSelected = length finalRows \<rparr> \<rparr>)"

definition loadFilteredDatabase :: "env \<Rightarrow> load_result \<Rightarrow> loader_error + filtered" where
  "loadFilteredDatabase e loaded =
     (let activateStatus = validateActivateStatus e
      in case validateSourceMode e of
           Inl err \<Rightarrow> Inl err
         | Inr sourceMode \<Rightarrow>
             (case validateMaxProcess e of
                Inl err \<Rightarrow> Inl err
              | Inr maxProcess \<Rightarrow>
                  (let enableFallback = parseEnableFallback e
                   in case validateFallbackStatus e of
                        Inl err \<Rightarrow> Inl err
                      | Inr fallbackStatus \<Rightarrow>
                          (let maxDraft = parseIntEnv (e ''MAX_DRAFT'')
                           in (case loaded of
                                 LoadThrows msg \<Rightarrow> Inl (LoadFailed msg)
                               | LoadNonArray \<Rightarrow> Inl NotAnArray
                               | LoadRows allRows \<Rightarrow>
                                   selectRows allRows activateStatus sourceMode maxProcess
                                     enableFallback fallbackStatus maxDraft)))))"

subsection \<open>Vocabulary for the properties of the worklist\<close>

text \<open>
  The normalized username of a worklist entry (empty where the entry has none), the
  test that an entry carries a username that is not blank, and the two parts of a
  worklist that the statistics delimit: the first \<open>selectedPrimary\<close> rows and the rest.
\<close>

definition keyOf :: "entry \<Rightarrow> string" where
  "keyOf x = (case usernameKey x of None \<Rightarrow> [] | Some k \<Rightarrow> k)"

definition hasUsername :: "entry \<Rightarrow> bool" where
  "hasUsername x =
     (case x of
        NonObject \<Rightarrow> False
      | Obj r \<Rightarrow> (case username r of JOther \<Rightarrow> False | JString u \<Rightarrow> trim u \<noteq> []))"

definition primaryPart :: "filtered \<Rightarrow> entry list" where
  "primaryPart res = take (selectedPrimary (stats res)) (rows res)"

definition fallbackPart :: "filtered \<Rightarrow> entry list" where
  "fallbackPart res = drop (selectedPrimary (stats res)) (rows res)"

text \<open>
  \<open>createMockRow\<close> of test-fallback.js builds the rows of the repository's tests;
  \<open>sampleEnv\<close> is the example configuration of the README, with the message template
  of the tests.
\<close>

definition createMockRow :: "nat \<Rightarrow> string \<Rightarrow> string \<Rightarrow> string \<Rightarrow> row" where
  "createMockRow i username' source' status' =
     \<lparr> rowIndex = i + 2, username = JString (trim (toLowerCase username')),
       source = JString source', status = JString status', message = [] \<rparr>"

definition sampleEnv :: env where
  "sampleEnv =
     [''INSTAGRAM_USERNAME'' \<mapsto> ''your_instagram_username'',
      ''GOOGLE_SHEET_ID'' \<mapsto> ''your_sheet_id_here'', ''GOOGLE_SHEET_NAME'' \<mapsto> ''Sheet1'',
      ''GOOGLE_CREDENTIALS_PATH'' \<mapsto> ''./path/to/your-credentials-file.json'',
      ''DRAFT_MESSAGE'' \<mapsto> ''Hey! Thanks for following.'',
      ''ACTIVATE_STATUS'' \<mapsto> ''Pending'', ''SOURCE_MODE'' \<mapsto> ''all'',
      ''ENABLE_FALLBACK'' \<mapsto> ''false'', ''FALLBACK_STATUS'' \<mapsto> ''Secondary'',
      ''MAX_DRAFT'' \<mapsto> ''10'', ''MAX_PROCCESS'' \<mapsto> ''100'',
      ''DETECT_CONVERSATION'' \<mapsto> ''false'', ''SEND_MESSAGE'' \<mapsto> ''false'']"

section \<open>envValidator.js\<close>

text \<open>
  \<open>!value\<close> on a variable of the environment: unset or the empty string.
  \<open>!value || typeof value !== 'string' || value.trim() === ''\<close>: unset or blank.
\<close>

definition falsy :: "string option \<Rightarrow> bool" where
  "falsy v = (case v of None \<Rightarrow> True | Some s \<Rightarrow> s = [])"

definition missingOrBlank :: "string option \<Rightarrow> bool" where
  "missingOrBlank v = (case v of None \<Rightarrow> True | Some s \<Rightarrow> s = [] \<or> trim s = [])"

definition parseBoolean :: "string option \<Rightarrow> bool \<Rightarrow> bool" where
  "parseBoolean v defaultValue =
     (case v of
        None \<Rightarrow> defaultValue
      | Some s \<Rightarrow>
          if s = [] then defaultValue
          else let normalized = toLowerCase (trim s)
               in if normalized = ''true'' \<or> normalized = ''1'' \<or> normalized = ''yes'' then True
                  else if normalized = ''false'' \<or> normalized = ''0'' \<or> normalized = ''no''
                  then False
                  else defaultValue)"

text \<open>
  One constructor for each message that \<open>validateEnv\<close> pushes onto \<open>errors\<close>; the text of
  a JSON or file-system exception is not kept.
\<close>

datatype env_error =
    InstagramUsernameRequired
  | SheetIdRequired
  | SheetNameRequired
  | CredentialsRequired
  | CredentialsBlank
  | CredentialsInvalidJson
  | CredentialsPathBlank
  | CredentialsPathNotFound string
  | CredentialsPathUnreadable
  | DraftMessageRequired
  | ActivateStatusRequired
  | SourceModeRequired
  | SourceModeInvalid string
  | MaxDraftRequired
  | MaxDraftDecimal string
  | MaxDraftInvalid string
  | MaxProcessRequired
  | MaxProcessDecimal string
  | MaxProcessInvalid string
  | EnableFallbackInvalid string
  | FallbackStatusMissing

text \<open>
  What the validator asks of the outside: whether \<open>JSON.parse\<close> accepts a string, whether
  a path exists, and whether the file at a path can be read and parsed.
\<close>

record outside =
  jsonParses :: "string \<Rightarrow> bool"
  existsSync :: "string \<Rightarrow> bool"
  fileParses :: "string \<Rightarrow> bool"

record config =
  instagramUsername :: string
  sheetId :: string
  sheetName :: string
  draftMessage :: string
  activateStatus :: string
  sourceMode :: string
  maxDraft :: "int option"
  maxProcess :: "int option"
  detectConversation :: bool
  sendMessage :: bool
  enableFallback :: bool
  fallbackStatus :: "string option"

definition credentialErrors :: "outside \<Rightarrow> env \<Rightarrow> env_error list" where
  "credentialErrors w e =
     (let googleCredentials = e ''GOOGLE_CREDENTIALS'';
          googleCredentialsPath = e ''GOOGLE_CREDENTIALS_PATH''
      in if falsy googleCredentials \<and> falsy googleCredentialsPath then [CredentialsRequired]
         else
           (case googleCredentials of
              None \<Rightarrow> []
            | Some c \<Rightarrow>
                if c = [] then []
                else if trim c = [] then [CredentialsBlank]
                else if jsonParses w c then [] else [CredentialsInvalidJson])
           @ (case googleCredentialsPath of
                None \<Rightarrow> []
              | Some p \<Rightarrow>
                  if p = [] then []
                  else if trim p = [] then [CredentialsPathBlank]
                  else if \<not> existsSync w p then [CredentialsPathNotFound p]
                  else if fileParses w p then [] else [CredentialsPathUnreadable]))"

definition positiveIntegerErrors ::
  "string option \<Rightarrow> env_error \<Rightarrow> (string \<Rightarrow> env_error) \<Rightarrow> (string \<Rightarrow> env_error)
     \<Rightarrow> env_error list" where
  "positiveIntegerErrors v required decimal invalid =
     (case v of
        None \<Rightarrow> [required]
      | Some s \<Rightarrow>
          if s = [] then [required]
          else let trimmed = trim s
               in if CHR ''.'' \<in> set trimmed then [decimal s]
                  else (case parseInt trimmed of
                          None \<Rightarrow> [invalid s]
                        | Some parsed \<Rightarrow> if parsed < 1 then [invalid s] else []))"

definition validateEnv :: "outside \<Rightarrow> env \<Rightarrow> env_error list + config" where
  "validateEnv w e =
     (let errors1 =
            (if missingOrBlank (e ''INSTAGRAM_USERNAME'') then [InstagramUsernameRequired] else [])
          @ (if missingOrBlank (e ''GOOGLE_SHEET_ID'') then [SheetIdRequired] else [])
          @ (if missingOrBlank (e ''GOOGLE_SHEET_NAME'') then [SheetNameRequired] else [])
          @ credentialErrors w e
          @ (if missingOrBlank (e ''DRAFT_MESSAGE'') then [DraftMessageRequired] else [])
          @ (if missingOrBlank (e ''ACTIVATE_STATUS'') then [ActivateStatusRequired] else [])
          @ (case e ''SOURCE_MODE'' of
               None \<Rightarrow> [SourceModeRequired]
             | Some s \<Rightarrow>
                 if s = [] \<or> trim s = [] then [SourceModeRequired]
                 else if toLowerCase (trim s) \<notin> set VALID_SOURCE_MODES then [SourceModeInvalid s]
                 else [])
          @ positiveIntegerErrors (e ''MAX_DRAFT'') MaxDraftRequired MaxDraftDecimal MaxDraftInvalid
          @ positiveIntegerErrors (e ''MAX_PROCCESS'') MaxProcessRequired MaxProcessDecimal
              MaxProcessInvalid;
          detectConversation' = parseBoolean (e ''DETECT_CONVERSATION'') False;
          sendMessage' = parseBoolean (e ''SEND_MESSAGE'') False;
          normalized = map_option (\<lambda>raw. toLowerCase (trim raw)) (e ''ENABLE_FALLBACK'');
          enableFallback' = (normalized = Some ''true'');
          errors2 =
            (case e ''ENABLE_FALLBACK'' of
               None \<Rightarrow> []
             | Some raw \<Rightarrow>
                 if normalized = Some ''true'' \<or> normalized = Some ''false'' then []
                 else [EnableFallbackInvalid raw]);
          errors3 =
            (if enableFallback' \<and> missingOrBlank (e ''FALLBACK_STATUS'')
             then [FallbackStatusMissing] else []);
          errors = errors1 @ errors2 @ errors3;
          trimmed = (\<lambda>name. case e name of None \<Rightarrow> [] | Some s \<Rightarrow> trim s)
      in if errors \<noteq> [] then Inl errors
         else Inr \<lparr> instagramUsername = trimmed ''INSTAGRAM_USERNAME'',
                    sheetId = trimmed ''GOOGLE_SHEET_ID'',
                    sheetName = trimmed ''GOOGLE_SHEET_NAME'',
                    draftMessage = trimmed ''DRAFT_MESSAGE'',
                    activateStatus = trimmed ''ACTIVATE_STATUS'',
                    sourceMode = toLowerCase (trimmed ''SOURCE_MODE''),
                    maxDraft = parseIntEnv (e ''MAX_DRAFT''),
                    maxProcess = parseIntEnv (e ''MAX_PROCCESS''),
                    detectConversation = detectConversation',
                    sendMessage = sendMessage',
                    enableFallback = enableFallback',
                    fallbackStatus =
                      (if enableFallback' \<and> \<not> falsy (e ''FALLBACK_STATUS'')
                       then Some (trimmed ''FALLBACK_STATUS'') else None) \<rparr>)"

section \<open>sheetsManager.js: the write-back of one row\<close>

text \<open>
  The sheet maps a row index to the cells of columns A to I as \<open>values.get\<close> returns
  them; a cell that the list does not reach is empty. The three calls that can throw
  (reading the credentials, reading the row, writing the row) are given from outside.
\<close>

type_synonym sheet = "int \<Rightarrow> string list"

record sheets_api =
  setupThrows :: bool
  getThrows :: bool
  updateThrows :: bool

datatype sheets_error =
    InvalidRowIndex int
  | SessionIdRequired
  | DateSentNotString
  | MessageNotString
  | StatusRequired
  | SetupFailed
  | UpdateFailed int

definition SESSION_ID :: nat where "SESSION_ID = 0"
definition DATE_SENT :: nat where "DATE_SENT = 4"
definition MESSAGE :: nat where "MESSAGE = 5"
definition STATUS :: nat where "STATUS = 6"

definition cell :: "string list \<Rightarrow> nat \<Rightarrow> string" where
  "cell r i = (if i < length r then r ! i else [])"

text \<open>\<open>while (currentRow.length < 7) currentRow.push('')\<close> and \<open>value || ''\<close>.\<close>

definition padTo7 :: "string list \<Rightarrow> string list" where
  "padTo7 r = r @ replicate (7 - length r) []"

definition orEmpty :: "string \<Rightarrow> string" where
  "orEmpty v = (if v = [] then [] else v)"

text \<open>
  \<open>sessionId\<close> is \<open>None\<close> for \<open>undefined\<close> or \<open>null\<close> and otherwise the string
  \<open>String(sessionId)\<close>; \<open>dateSent\<close> and \<open>message\<close> are \<open>None\<close> where the value passed
  is not a string; \<open>statusArg\<close> is \<open>None\<close> where the caller leaves the status out.
  \<open>rowIndex\<close> is an integer. The row written replaces the cells it covers.
\<close>

definition updateDraftData ::
  "sheets_api \<Rightarrow> sheet \<Rightarrow> int \<Rightarrow> string option \<Rightarrow> string option \<Rightarrow> string option
     \<Rightarrow> string option \<Rightarrow> sheets_error + sheet" where
  "updateDraftData api sh rowIndex' sessionId dateSent message' statusArg =
     (let status' = (case statusArg of None \<Rightarrow> ''Drafted'' | Some s \<Rightarrow> s)
      in if rowIndex' < 2 then Inl (InvalidRowIndex rowIndex')
         else (case sessionId of
                 None \<Rightarrow> Inl SessionIdRequired
               | Some sid \<Rightarrow>
                   if trim sid = [] then Inl SessionIdRequired
                   else (case dateSent of
                     None \<Rightarrow> Inl DateSentNotString
                   | Some dateSent' \<Rightarrow>
                   (case message' of
                     None \<Rightarrow> Inl MessageNotString
                   | Some message'' \<Rightarrow>
                   if trim status' = [] then Inl StatusRequired
                   else if setupThrows api then Inl SetupFailed
                   else
                     let currentRow = (if getThrows api then replicate 9 []
                                       else padTo7 (sh rowIndex'));
                         updatedRow1 = currentRow[SESSION_ID := sid];
                         preserveDateAndMessage =
                           (status' = ''Send Failed'' \<or> status' = ''Skipped'');
                         updatedRow2 =
                           (if preserveDateAndMessage
                            then updatedRow1[DATE_SENT := orEmpty (currentRow ! DATE_SENT),
                                             MESSAGE := orEmpty (currentRow ! MESSAGE)]
                            else updatedRow1[DATE_SENT := dateSent', MESSAGE := message'']);
                         updatedRow = updatedRow2[STATUS := status']
                     in if updateThrows api then Inl (UpdateFailed rowIndex')
                        else Inr (sh(rowIndex' :=
                                updatedRow @ drop (length updatedRow) (sh rowIndex')))))))"

text \<open>The Date Sent and Message cells of a row after a call, where the call returns.\<close>

definition storedDateAndMessage :: "sheets_error + sheet \<Rightarrow> int \<Rightarrow> (string \<times> string) option" where
  "storedDateAndMessage r i =
     (case r of Inl _ \<Rightarrow> None | Inr sh \<Rightarrow> Some (cell (sh i) DATE_SENT, cell (sh i) MESSAGE))"

section \<open>dmFlowController.js\<close>

record flow_result =
  success :: bool
  "method" :: string
  error :: "string option"
  reason :: "string option"

datatype flow_outcome = Returns flow_result | Throws string

text \<open>What the two flows do on the profile page, and the record of which were called.\<close>

record dm_world =
  openDirectMessage :: flow_outcome
  openDMViaOptionsMenu :: flow_outcome

datatype flow_call = CalledFlow1 | CalledFlow2

record dm_result =
  success :: bool
  used :: string
  flow1 :: flow_result
  flow2 :: "flow_result option"
  calls :: "flow_call list"

definition caught :: "string \<Rightarrow> flow_outcome \<Rightarrow> flow_result" where
  "caught name out =
     (case out of
        Returns r \<Rightarrow> r
      | Throws msg \<Rightarrow> \<lparr> flow_result.success = False, method = name, error = Some msg,
                       reason = None \<rparr>)"

definition openDMController :: "dm_world \<Rightarrow> dm_result" where
  "openDMController w =
     (let flow1Result = caught ''flow1'' (openDirectMessage w)
      in if flow_result.success flow1Result
         then \<lparr> dm_result.success = True, used = ''flow1'', flow1 = flow1Result, flow2 = None,
                calls = [CalledFlow1] \<rparr>
         else
           let flow2Result = caught ''flow2'' (openDMViaOptionsMenu w)
           in if flow_result.success flow2Result
              then \<lparr> dm_result.success = True, used = ''flow2'', flow1 = flow1Result,
                     flow2 = Some flow2Result, calls = [CalledFlow1, CalledFlow2] \<rparr>
              else \<lparr> dm_result.success = False, used = ''none'', flow1 = flow1Result,
                     flow2 = Some flow2Result, calls = [CalledFlow1, CalledFlow2] \<rparr>)"

section \<open>messageBuilder.js\<close>

text \<open>
  \<open>s.indexOf(sep)\<close>: the first position at which \<open>sep\<close> occurs in \<open>s\<close>, \<open>None\<close> for -1.
\<close>

fun indexOf :: "string \<Rightarrow> string \<Rightarrow> nat option" where
  "indexOf [] sep = (if sep = [] then Some 0 else None)"
| "indexOf (c # cs) sep =
     (if take (length sep) (c # cs) = sep then Some 0 else map_option Suc (indexOf cs sep))"

text \<open>
  \<open>deriveFirstNameFromUsername\<close>: the part of the trimmed username before the first
  \<open>_\<close> or \<open>.\<close> (the first 20 characters where there is none, or where it is the
  first character), without the characters outside \<open>[a-zA-Z0-9]\<close>; a result shorter
  than 2 or longer than 30 gives the empty string; the first letter is put in upper case
  and the rest in lower case. \<open>toUpperChar\<close> is \<open>toUpperCase\<close> on one character of
  \<open>[a-zA-Z0-9]\<close>, the only characters that reach it.
\<close>

definition isAlnum :: "char \<Rightarrow> bool" where
  "isAlnum c \<longleftrightarrow>
     (let n = (of_char c :: nat)
      in (48 \<le> n \<and> n \<le> 57) \<or> (65 \<le> n \<and> n \<le> 90) \<or> (97 \<le> n \<and> n \<le> 122))"

definition toUpperChar :: "char \<Rightarrow> char" where
  "toUpperChar c =
     (let n = (of_char c :: nat)
      in if 97 \<le> n \<and> n \<le> 122 then char_of (n - 32) else c)"

definition deriveFirstNameFromUsername :: "string \<Rightarrow> string" where
  "deriveFirstNameFromUsername username' =
     (if username' = [] then []
      else
        let trimmed = trim username'
        in if trimmed = [] then []
           else
             let separatorIndex =
                   (case (indexOf trimmed ''_'', indexOf trimmed ''.'') of
                      (None, None) \<Rightarrow> None
                    | (Some i, None) \<Rightarrow> Some i
                    | (None, Some j) \<Rightarrow> Some j
                    | (Some i, Some j) \<Rightarrow> Some (min i j));
                 namePart =
                   (case separatorIndex of
                      None \<Rightarrow> take 20 trimmed
                    | Some i \<Rightarrow> if 0 < i then take i trimmed else take 20 trimmed);
                 cleaned = filter isAlnum namePart
             in if length cleaned < 2 \<or> 30 < length cleaned then []
                else toUpperChar (hd cleaned) # toLowerCase (tl cleaned))"

text \<open>
  \<open>extractFirstName\<close>, called with a page as \<open>processUser\<close> calls it. \<open>getFirstName\<close>
  of conversationTools.js reads the name from the page: \<open>found\<close> is the string it
  returns, or \<open>None\<close> where it throws. A name that is not blank is returned trimmed;
  otherwise, and after an exception, the name derived from the username is returned, or
  the empty string.
\<close>

definition extractFirstName :: "string option \<Rightarrow> string \<Rightarrow> string" where
  "extractFirstName found username' =
     (let fromUsername =
            (if username' \<noteq> [] \<and> deriveFirstNameFromUsername username' \<noteq> []
             then deriveFirstNameFromUsername username' else [])
      in case found of
           None \<Rightarrow> fromUsername
         | Some firstName \<Rightarrow>
             if firstName \<noteq> [] \<and> trim firstName \<noteq> [] then trim firstName
             else fromUsername)"

text \<open>
  The three options are strings here; \<open>separator\<close> is \<open>''!''\<close> where the caller leaves
  it out, as \<open>processUser\<close> passes it.
\<close>

definition buildDraftMessage :: "string \<Rightarrow> string \<Rightarrow> string \<Rightarrow> string" where
  "buildDraftMessage firstName messageTemplate separator =
     (if messageTemplate = [] then []
      else
        let trimmedFirstName = (if firstName \<noteq> [] then trim firstName else []);
            trimmedTemplate = trim messageTemplate
        in if trimmedFirstName = [] then trimmedTemplate
           else (case indexOf trimmedTemplate separator of
                   None \<Rightarrow> trimmedFirstName @ separator @ '' '' @ trimmedTemplate
                 | Some separatorIndex \<Rightarrow>
                     let beforeSeparator = take separatorIndex trimmedTemplate;
                         afterSeparator = drop separatorIndex trimmedTemplate
                     in beforeSeparator @ '' '' @ trimmedFirstName @ afterSeparator))"

section \<open>messageDrafter.js\<close>

text \<open>
  The conversation page as \<open>draftMessage\<close> meets it: whether an input field is found,
  whether a call on the page throws while the field is looked up or while the text is
  typed and read back, the text read back (empty where the read gives nothing), and what
  the calls of \<open>sendMessage\<close> and \<open>confirmMessageSent\<close> give, by the number of earlier
  calls. Both functions catch their own exceptions and return \<open>false\<close> then.
\<close>

record dm_page =
  locateThrows :: bool
  inputFound :: bool
  typingThrows :: bool
  renderedText :: string
  sendOk :: "nat \<Rightarrow> bool"
  confirmOk :: "nat \<Rightarrow> bool"

record drafter_calls =
  sendCalls :: nat
  confirmCalls :: nat

definition sendMessage :: "dm_page \<Rightarrow> drafter_calls \<Rightarrow> bool \<times> drafter_calls" where
  "sendMessage page c = (sendOk page (sendCalls c), c\<lparr>sendCalls := sendCalls c + 1\<rparr>)"

definition confirmMessageSent :: "dm_page \<Rightarrow> drafter_calls \<Rightarrow> bool \<times> drafter_calls" where
  "confirmMessageSent page c =
     (confirmOk page (confirmCalls c), c\<lparr>confirmCalls := confirmCalls c + 1\<rparr>)"

record draft_result =
  success :: bool
  sent :: "bool option"
  message :: "string option"
  typedText :: "string option"
  error :: "string option"

definition draftFailure :: "string option \<Rightarrow> string option \<Rightarrow> string option \<Rightarrow> draft_result" where
  "draftFailure err msg typed =
     \<lparr> draft_result.success = False, sent = None, draft_result.message = msg,
       typedText = typed, draft_result.error = err \<rparr>"

definition drafted :: "bool option \<Rightarrow> string \<Rightarrow> string \<Rightarrow> draft_result" where
  "drafted sent' msg typed =
     \<lparr> draft_result.success = True, sent = sent', draft_result.message = Some msg,
       typedText = Some typed, draft_result.error = None \<rparr>"

text \<open>
  \<open>sendOption\<close> is \<open>options.sendMessage\<close>, \<open>None\<close> where it is \<open>undefined\<close> or \<open>null\<close>.
  The second component counts the calls made on the page.
\<close>

definition draftMessage ::
  "env \<Rightarrow> dm_page \<Rightarrow> string \<Rightarrow> bool option \<Rightarrow> draft_result \<times> drafter_calls" where
  "draftMessage e page messageText sendOption =
     (let c0 = \<lparr> sendCalls = 0, confirmCalls = 0 \<rparr>
      in if messageText = [] \<or> trim messageText = []
         then (draftFailure (Some ''Missing or empty message text'') None None, c0)
         else if locateThrows page then (draftFailure None None None, c0)
         else if \<not> inputFound page
         then (draftFailure (Some ''No DM input field found'') (Some messageText) None, c0)
         else if typingThrows page then (draftFailure None None None, c0)
         else if \<not> (renderedText page \<noteq> [] \<and> trim (renderedText page) = trim messageText)
         then (draftFailure (Some ''Message verification failed'') (Some messageText)
                 (Some (renderedText page)), c0)
         else
           let shouldSend = (case sendOption of
                               Some b \<Rightarrow> b
                             | None \<Rightarrow> parseBoolean (e ''SEND_MESSAGE'') False)
           in if shouldSend
              then
                (case sendMessage page c0 of (sendSuccess, c1) \<Rightarrow>
                   if sendSuccess
                   then
                     (case confirmMessageSent page c1 of (confirmed, c2) \<Rightarrow>
                        if confirmed
                        then (drafted (Some True) messageText (renderedText page), c2)
                        else
                          (case sendMessage page c2 of (retrySuccess, c3) \<Rightarrow>
                             if retrySuccess
                             then
                               (case confirmMessageSent page c3 of (retryConfirmed, c4) \<Rightarrow>
                                  (drafted (Some retryConfirmed) messageText
                                     (renderedText page), c4))
                             else (drafted (Some False) messageText (renderedText page), c3)))
                   else (drafted (Some False) messageText (renderedText page), c1))
              else (drafted None messageText (renderedText page), c0))"

section \<open>main.js\<close>

text \<open>
  What one target meets: the page opened for it (\<open>newPage\<close> may throw), the navigation
  to the profile (its error message where it throws, also on a redirect to the login
  page), the two flows that open the conversation, what the history detector and the name
  extraction return (neither throws), the conversation page, the time stamp of the
  write-back, the spreadsheet calls and the call that closes the tab.
\<close>

record target_world =
  newPageThrows :: bool
  navigateThrows :: "string option"
  dm :: dm_world
  hasConversation :: bool
  messageCount :: string
  firstName :: string
  page :: dm_page
  timestamp :: string
  api :: sheets_api
  closeThrows :: bool

record user_result =
  username :: jsval
  rowIndex :: nat
  success :: bool
  skipped :: bool
  error :: "string option"
  message :: "string option"
  sent :: "bool option"

definition processUser :: "env \<Rightarrow> target_world \<Rightarrow> row \<Rightarrow> config \<Rightarrow> user_result" where
  "processUser e w r cfg =
     (let result = \<lparr> user_result.username = row.username r, user_result.rowIndex = row.rowIndex r,
                      user_result.success = False, skipped = False, user_result.error = None,
                      user_result.message = None, user_result.sent = None \<rparr>
      in if (case row.username r of JOther \<Rightarrow> True | JString u \<Rightarrow> u = [] \<or> trim u = [])
         then result\<lparr>user_result.error := Some ''Username is required and must be non-empty''\<rparr>
         else if config.draftMessage cfg = [] \<or> trim (config.draftMessage cfg) = []
         then result\<lparr>user_result.error :=
                Some ''DRAFT_MESSAGE is required and must be non-empty''\<rparr>
         else (case navigateThrows w of
           Some msg \<Rightarrow> result\<lparr>user_result.error := Some msg\<rparr>
         | None \<Rightarrow>
           let dmResult = openDMController (dm w)
           in if \<not> dm_result.success dmResult
              then result\<lparr>user_result.error := Some ''Failed to open DM: Unknown error''\<rparr>
              else if config.detectConversation cfg \<and> hasConversation w
              then result\<lparr>skipped := True,
                     user_result.error := Some (''Existing conversation detected (''
                                                @ messageCount w @ '' messages)'')\<rparr>
              else
                let messageText = buildDraftMessage (firstName w) (config.draftMessage cfg) ''!'';
                    draftResult = fst (draftMessage e (page w) messageText
                                         (Some (config.sendMessage cfg)))
                in if \<not> draft_result.success draftResult
                   then result\<lparr>user_result.error :=
                          Some (''Failed to draft message: ''
                                @ (case draft_result.error draftResult of
                                     None \<Rightarrow> ''Unknown error''
                                   | Some err \<Rightarrow> if err = [] then ''Unknown error'' else err))\<rparr>
                   else
                     let result1 = result\<lparr>user_result.success := True,
                                     user_result.message := draft_result.message draftResult\<rparr>
                     in if config.sendMessage cfg
                        then
                          let sent' = (case draft_result.sent draftResult of
                                         None \<Rightarrow> False | Some b \<Rightarrow> b)
                          in if sent' then result1\<lparr>user_result.sent := Some True\<rparr>
                             else result1\<lparr>user_result.sent := Some False,
                                    user_result.error :=
                                      Some ''Message send failed - bubble not detected after retry''\<rparr>
                        else result1))"

text \<open>
  The counters of \<open>run\<close>, the sheet, and one report for each target the loop has worked
  on: the counters it found, the status it handed to \<open>updateDraftData\<close>, whether it called
  \<open>userPage.close()\<close> and whether the tab is closed when the iteration ends.
\<close>

record report =
  target :: nat
  sentBefore :: nat
  draftedBefore :: nat
  statusWritten :: string
  closeCalled :: bool
  tabClosed :: bool

record run_state =
  draftedCount :: nat
  sentCount :: nat
  skippedCount :: nat
  errorCount :: nat
  sendFailedCount :: nat
  sheetNow :: sheet
  reports :: "report list"
  browserError :: bool

text \<open>\<open>count >= config.maxDraft\<close>; a comparison with NaN is false.\<close>

definition reached :: "nat \<Rightarrow> int option \<Rightarrow> bool" where
  "reached n limit = (case limit of None \<Rightarrow> False | Some m \<Rightarrow> m \<le> int n)"

text \<open>
  The test at the head of the loop body and the test at its end: in send mode the sent
  messages count, in draft mode the drafted ones.
\<close>

definition limitReached :: "config \<Rightarrow> run_state \<Rightarrow> bool" where
  "limitReached cfg st =
     (if config.sendMessage cfg then reached (sentCount st) (config.maxDraft cfg)
      else reached (draftedCount st) (config.maxDraft cfg))"

text \<open>A write-back whose exception the caller catches: the sheet stays as it was.\<close>

definition written :: "sheets_error + sheet \<Rightarrow> sheet \<Rightarrow> sheet" where
  "written r sh = (case r of Inl _ \<Rightarrow> sh | Inr sh' \<Rightarrow> sh')"

text \<open>
  The body of the loop for one target, after the page is opened. The second component
  tells whether the body ends with \<open>continue\<close> (a skipped target), which passes over the
  test at the end of the body. \<open>processUser\<close> catches every exception, so the handler of
  an unexpected error is never entered.
\<close>

definition runIteration ::
  "env \<Rightarrow> config \<Rightarrow> string \<Rightarrow> run_state \<Rightarrow> row \<Rightarrow> target_world \<Rightarrow> run_state \<times> bool" where
  "runIteration e cfg sessionId st r w =
     (let result = processUser e w r cfg;
          idx = int (user_result.rowIndex result);
          rep = \<lparr> target = row.rowIndex r, sentBefore = sentCount st,
                  draftedBefore = draftedCount st, statusWritten = [],
                  closeCalled = False, tabClosed = False \<rparr>
      in if skipped result
         then
           let upd = updateDraftData (api w) (sheetNow st) idx (Some sessionId) (Some [])
                       (Some []) (Some ''Skipped'')
           in (st\<lparr> skippedCount := skippedCount st + 1,
                   sheetNow := written upd (sheetNow st),
                   reports := reports st @ [rep\<lparr> statusWritten := ''Skipped'',
                                closeCalled := True, tabClosed := \<not> closeThrows w \<rparr>] \<rparr>, True)
         else if user_result.success result
         then
           let sent' = (user_result.sent result = Some True);
               status' = (if config.sendMessage cfg
                          then (if sent' then ''Sent'' else ''Send Failed'')
                          else ''Drafted'');
               st1 = (if config.sendMessage cfg
                      then (if sent' then st\<lparr> sentCount := sentCount st + 1 \<rparr>
                            else st\<lparr> sendFailedCount := sendFailedCount st + 1 \<rparr>)
                      else st\<lparr> draftedCount := draftedCount st + 1 \<rparr>);
               upd = (if status' = ''Send Failed''
                      then updateDraftData (api w) (sheetNow st) idx (Some sessionId) (Some [])
                             (Some []) (Some status')
                      else updateDraftData (api w) (sheetNow st) idx (Some sessionId)
                             (Some (timestamp w)) (user_result.message result) (Some status'));
               updateFailed = isl upd;
               messageSent = (\<not> updateFailed \<and> config.sendMessage cfg \<and> sent');
               draftingSucceeded =
                 (if updateFailed then True
                  else if config.sendMessage cfg then sent' else True);
               st2 = (if updateFailed then st1\<lparr> errorCount := errorCount st1 + 1 \<rparr> else st1);
               close = (if config.sendMessage cfg then draftingSucceeded \<and> messageSent
                        else \<not> draftingSucceeded)
           in (st2\<lparr> sheetNow := written upd (sheetNow st),
                    reports := reports st @ [rep\<lparr> statusWritten := status',
                                 closeCalled := close,
                                 tabClosed := (close \<and> \<not> closeThrows w) \<rparr>] \<rparr>, False)
         else
           let upd = updateDraftData (api w) (sheetNow st) idx (Some sessionId) (Some [])
                       (Some []) (Some ''Failed'');
               draftingSucceeded = False;
               messageSent = False;
               close = (if config.sendMessage cfg then draftingSucceeded \<and> messageSent
                        else \<not> draftingSucceeded)
           in (st\<lparr> errorCount := errorCount st + 1,
                   sheetNow := written upd (sheetNow st),
                   reports := reports st @ [rep\<lparr> statusWritten := ''Failed'',
                                closeCalled := close,
                                tabClosed := (close \<and> \<not> closeThrows w) \<rparr>] \<rparr>, False))"

text \<open>
  The loop over the worklist, each row with what its target meets. An exception of
  \<open>browser.newPage()\<close> leaves the loop through the handler of browser errors.
\<close>

fun runLoop ::
  "env \<Rightarrow> config \<Rightarrow> string \<Rightarrow> run_state \<Rightarrow> (row \<times> target_world) list \<Rightarrow> run_state" where
  "runLoop e cfg sessionId st [] = st"
| "runLoop e cfg sessionId st ((r, w) # rest) =
     (if limitReached cfg st then st
      else if newPageThrows w then st\<lparr> browserError := True \<rparr>
      else
        (case runIteration e cfg sessionId st r w of (st', continue) \<Rightarrow>
           if continue then runLoop e cfg sessionId st' rest
           else if limitReached cfg st' then st'
           else runLoop e cfg sessionId st' rest))"

definition initialState :: "sheet \<Rightarrow> run_state" where
  "initialState sh =
     \<lparr> draftedCount = 0, sentCount = 0, skippedCount = 0, errorCount = 0,
       sendFailedCount = 0, sheetNow = sh, reports = [], browserError = False \<rparr>"

section \<open>Vocabulary for the properties of the flows\<close>

text \<open>A flow succeeds when it returns a result with \<open>success = true\<close>; one that throws fails.\<close>

definition flowSucceeds :: "flow_outcome \<Rightarrow> bool" where
  "flowSucceeds out = (case out of Returns r \<Rightarrow> flow_result.success r | Throws _ \<Rightarrow> False)"

section \<open>Vocabulary and examples for the properties of the run\<close>

text \<open>A report passes the limit test when the counter the mode looks at is below the limit.\<close>

definition underLimit :: "config \<Rightarrow> report \<Rightarrow> bool" where
  "underLimit cfg rep =
     (if config.sendMessage cfg then \<not> reached (sentBefore rep) (config.maxDraft cfg)
      else \<not> reached (draftedBefore rep) (config.maxDraft cfg))"

text \<open>
  Examples: an outside in which every credential check passes; the example configuration
  in send mode, and the configurations \<open>validateEnv\<close> returns for the two; a spreadsheet
  whose row 2 holds an earlier message; a spreadsheet connection on which every call works;
  a profile on which neither flow opens the conversation; and a profile on which flow 1
  opens it, the text typed is read back, and the first confirmation of the send fails while
  the second succeeds.
\<close>

definition granted :: outside where
  "granted = \<lparr> jsonParses = (\<lambda>_. True), existsSync = (\<lambda>_. True), fileParses = (\<lambda>_. True) \<rparr>"

definition sendModeEnv :: env where
  "sendModeEnv = sampleEnv(''SEND_MESSAGE'' \<mapsto> ''true'')"

definition draftModeConfig :: config where
  "draftModeConfig =
     \<lparr> instagramUsername = ''your_instagram_username'', sheetId = ''your_sheet_id_here'',
       sheetName = ''Sheet1'', draftMessage = ''Hey! Thanks for following.'',
       activateStatus = ''Pending'', sourceMode = ''all'', maxDraft = Some 10,
       maxProcess = Some 100, detectConversation = False, sendMessage = False,
       enableFallback = False, fallbackStatus = None \<rparr>"

definition sendModeConfig :: config where
  "sendModeConfig = draftModeConfig\<lparr> config.sendMessage := True \<rparr>"

definition exampleSheet :: sheet where
  "exampleSheet =
     (\<lambda>_. [])(2 := [''1690000000000'', ''2024-01-01'', ''user1'', ''likes'',
                     ''2024-02-02T10:00:00.000Z'', ''Hey John! Thanks for following.'',
                     ''Pending''])"

definition workingApi :: sheets_api where
  "workingApi = \<lparr> setupThrows = False, getThrows = False, updateThrows = False \<rparr>"

definition retryPage :: dm_page where
  "retryPage =
     \<lparr> locateThrows = False, inputFound = True, typingThrows = False,
       renderedText = ''Hey John! Thanks for following.'',
       sendOk = (\<lambda>_. True), confirmOk = (\<lambda>n. n = 1) \<rparr>"

definition closedProfile :: target_world where
  "closedProfile =
     \<lparr> newPageThrows = False, navigateThrows = None,
       dm = \<lparr> openDirectMessage =
                Returns \<lparr> flow_result.success = False, method = ''flow1'',
                          flow_result.error = Some ''Message button not found'',
                          reason = None \<rparr>,
              openDMViaOptionsMenu =
                Returns \<lparr> flow_result.success = False, method = ''flow2'',
                          flow_result.error = None,
                          reason = Some ''options_icon_not_found'' \<rparr> \<rparr>,
       hasConversation = False, messageCount = ''0'', firstName = ''John'', page = retryPage,
       timestamp = ''2026-01-01T00:00:00.000Z'', api = workingApi, closeThrows = False \<rparr>"

definition openProfile :: target_world where
  "openProfile =
     closedProfile\<lparr> dm := \<lparr> openDirectMessage =
                              Returns \<lparr> flow_result.success = True, method = ''flow1'',
                                        flow_result.error = None, reason = None \<rparr>,
                            openDMViaOptionsMenu = Throws ''not called'' \<rparr> \<rparr>"

section \<open>Properties of the validated configuration\<close>

text \<open>
  \<open>parseInt\<close> reads the same number from a string and from the trimmed string, so the
  worklist cap that \<open>validateEnv\<close> accepts is the one \<open>loadFilteredDatabase\<close> parses,
  and it is at least 1.
\<close>

lemma whiteSpace_not_digit: "isWhiteSpace c \<Longrightarrow> \<not> isDigit c"
  by (auto simp: isWhiteSpace_def isDigit_def)

lemma takeWhile_digit_append:
  assumes "list_all isWhiteSpace t"
  shows "takeWhile isDigit (u @ t) = takeWhile isDigit u"
proof -
  have "takeWhile isDigit t = []"
    using assms by (cases t) (auto simp: whiteSpace_not_digit)
  then show ?thesis by (induction u) auto
qed

lemma dropWhile_trim_decomp:
  "\<exists>t. dropWhile isWhiteSpace s = trim s @ t \<and> list_all isWhiteSpace t"
proof -
  let ?d = "dropWhile isWhiteSpace s"
  have "rev (rev ?d) = rev (dropWhile isWhiteSpace (rev ?d)) @ rev (takeWhile isWhiteSpace (rev ?d))"
    by (metis rev_append takeWhile_dropWhile_id)
  then have "?d = trim s @ rev (takeWhile isWhiteSpace (rev ?d))"
    unfolding trim_def rev_rev_ident .
  moreover have "list_all isWhiteSpace (rev (takeWhile isWhiteSpace (rev ?d)))"
    by (auto simp: list_all_iff dest: set_takeWhileD)
  ultimately show ?thesis by blast
qed

lemma dropWhile_trim: "dropWhile isWhiteSpace (trim s) = trim s"
proof (cases "trim s = []")
  case True
  then show ?thesis by simp
next
  case False
  from dropWhile_trim_decomp obtain t where t: "dropWhile isWhiteSpace s = trim s @ t"
    by blast
  with False have ne: "dropWhile isWhiteSpace s \<noteq> []" by simp
  from hd_dropWhile [OF ne] t False have "\<not> isWhiteSpace (hd (trim s))"
    by simp
  then show ?thesis by (simp add: dropWhile_eq_self_iff)
qed

lemma parseInt_trim: "parseInt (trim s) = parseInt s"
proof -
  from dropWhile_trim_decomp obtain t where
    t: "dropWhile isWhiteSpace s = trim s @ t" and ws: "list_all isWhiteSpace t"
    by blast
  show ?thesis
  proof (cases "trim s")
    case Nil
    with t have all: "dropWhile isWhiteSpace s = t" by simp
    have "t = []"
    proof (rule ccontr)
      assume "t \<noteq> []"
      with all have "dropWhile isWhiteSpace s \<noteq> []" by simp
      from hd_dropWhile [OF this] all have "\<not> isWhiteSpace (hd t)" by simp
      with ws \<open>t \<noteq> []\<close> show False by (cases t) auto
    qed
    with all have d0: "dropWhile isWhiteSpace s = []" by simp
    have d1: "dropWhile isWhiteSpace [] = []" by simp
    show ?thesis
      unfolding Nil parseInt_def d0 d1 by simp
  next
    case (Cons c r)
    have a: "dropWhile isWhiteSpace s = c # (r @ t)" using t Cons by simp
    have b: "dropWhile isWhiteSpace (trim s) = c # r" using dropWhile_trim [of s] Cons by simp
    have c1: "takeWhile isDigit (r @ t) = takeWhile isDigit r"
      by (rule takeWhile_digit_append [OF ws])
    have c2: "takeWhile isDigit (c # r @ t) = takeWhile isDigit (c # r)"
      using takeWhile_digit_append [OF ws, of "c # r"] by simp
    show ?thesis
      unfolding parseInt_def a b Let_def
      using c1 c2 by (simp del: takeWhile.simps)
  qed
qed

lemma positiveIntegerErrors_Nil:
  assumes "positiveIntegerErrors v req dec bad = []"
  shows "\<exists>m. parseIntEnv v = Some m \<and> 1 \<le> m"
  using assms
  by (auto simp: positiveIntegerErrors_def parseIntEnv_def Let_def parseInt_trim
      split: option.splits if_splits)

lemma validateEnv_maxDraft:
  assumes "validateEnv w e = Inr cfg"
  shows "\<exists>m. parseIntEnv (e ''MAX_DRAFT'') = Some m \<and> 1 \<le> m \<and> config.maxDraft cfg = Some m"
proof -
  from assms have "positiveIntegerErrors (e ''MAX_DRAFT'') MaxDraftRequired MaxDraftDecimal
      MaxDraftInvalid = []"
    and "config.maxDraft cfg = parseIntEnv (e ''MAX_DRAFT'')"
    unfolding validateEnv_def Let_def by (auto split: if_splits)
  with positiveIntegerErrors_Nil show ?thesis by fastforce
qed

lemma validateEnv_maxProcess:
  assumes "validateEnv w e = Inr cfg"
  shows "\<exists>k. parseIntEnv (e ''MAX_PROCCESS'') = Some k \<and> 1 \<le> k \<and> config.maxProcess cfg = Some k"
proof -
  from assms have "positiveIntegerErrors (e ''MAX_PROCCESS'') MaxProcessRequired MaxProcessDecimal
      MaxProcessInvalid = []"
    and "config.maxProcess cfg = parseIntEnv (e ''MAX_PROCCESS'')"
    unfolding validateEnv_def Let_def by (auto split: if_splits)
  with positiveIntegerErrors_Nil show ?thesis by fastforce
qed

section \<open>Properties of the candidate selection\<close>

subsection \<open>The deduplication loop\<close>

lemma dedupLoop_acc: "dedupLoop seen acc xs = acc @ dedupLoop seen [] xs"
proof (induction xs arbitrary: seen acc)
  case Nil
  then show ?case by simp
next
  case (Cons x xs)
  note IH = Cons.IH
  show ?case
  proof (cases x)
    case NonObject
    then show ?thesis using IH [of seen acc] by simp
  next
    case (Obj r)
    show ?thesis
    proof (cases "row.username r")
      case JOther
      with Obj show ?thesis using IH [of seen acc] by simp
    next
      case (JString u)
      show ?thesis
      proof (cases "u = [] \<or> trim u = [] \<or> trim (toLowerCase u) \<in> seen")
        case True
        with Obj JString show ?thesis using IH [of seen acc] by (auto simp: Let_def)
      next
        case False
        with Obj JString show ?thesis
          using IH [of "insert (trim (toLowerCase u)) seen" "acc @ [x]"]
            IH [of "insert (trim (toLowerCase u)) seen" "[x]"]
          by (simp add: Let_def)
      qed
    qed
  qed
qed

lemma dedupLoop_Cons:
  "dedupLoop seen [] (x # xs) =
     (case x of
        NonObject \<Rightarrow> dedupLoop seen [] xs
      | Obj r \<Rightarrow>
          (case row.username r of
             JOther \<Rightarrow> dedupLoop seen [] xs
           | JString u \<Rightarrow>
               if u = [] \<or> trim u = [] \<or> trim (toLowerCase u) \<in> seen
               then dedupLoop seen [] xs
               else x # dedupLoop (insert (trim (toLowerCase u)) seen) [] xs))"
  using dedupLoop_acc [of _ "[x]" xs]
  by (auto simp: Let_def split: entry.split jsval.split)

lemma dedupLoop_hasUsername: "x \<in> set (dedupLoop seen [] xs) \<Longrightarrow> hasUsername x"
proof (induction xs arbitrary: seen)
  case Nil
  then show ?case by simp
next
  case (Cons y ys)
  then show ?case
    by (auto simp: dedupLoop_Cons hasUsername_def simp del: dedupLoop.simps
        split: entry.splits jsval.splits if_splits)
qed

lemma dedupLoop_keys_fresh: "x \<in> set (dedupLoop seen [] xs) \<Longrightarrow> keyOf x \<notin> seen"
proof (induction xs arbitrary: seen)
  case Nil
  then show ?case by simp
next
  case (Cons y ys)
  then show ?case
    by (fastforce simp: dedupLoop_Cons keyOf_def usernameKey_def simp del: dedupLoop.simps
        split: entry.splits jsval.splits if_splits)
qed

lemma dedupLoop_distinct: "distinct (map keyOf (dedupLoop seen [] xs))"
proof (induction xs arbitrary: seen)
  case Nil
  then show ?case by simp
next
  case (Cons y ys)
  have fresh: "\<And>r u. y = Obj r \<Longrightarrow> row.username r = JString u \<Longrightarrow>
       keyOf y \<notin> keyOf ` set (dedupLoop (insert (trim (toLowerCase u)) seen) [] ys)"
    using dedupLoop_keys_fresh by (fastforce simp: keyOf_def usernameKey_def)
  show ?case
    using Cons.IH fresh
    by (simp add: dedupLoop_Cons del: dedupLoop.simps split: entry.split jsval.split)
qed

lemma dedupLoop_subset: "set (dedupLoop seen [] xs) \<subseteq> set xs"
proof (induction xs arbitrary: seen)
  case Nil
  then show ?case by simp
next
  case (Cons y ys)
  then show ?case
    by (fastforce simp: dedupLoop_Cons simp del: dedupLoop.simps
        split: entry.splits jsval.splits if_splits)
qed

lemma slice0_take: "\<exists>n. slice0 xs k = take n xs"
  by (cases k) (auto simp: slice0_def intro: exI [of _ 0])

lemma slice0_length: "0 \<le> m \<Longrightarrow> int (length (slice0 xs (Some m))) \<le> m"
  by (simp add: slice0_def)

lemma those_usernameKey:
  "\<forall>x \<in> set xs. hasUsername x \<Longrightarrow> those (map usernameKey xs) = Some (map keyOf xs)"
  by (induction xs) (auto simp: hasUsername_def keyOf_def usernameKey_def split: entry.splits jsval.splits)

lemma getEligible_props:
  assumes "x \<in> set (getEligibleRowsByStatus allRows st sm mp excl)"
  shows "hasUsername x" and "statusMatches st x" and "keyOf x \<notin> excl"
proof -
  let ?sf = "filter (statusMatches st) allRows"
  let ?src = "if sm = ''all'' then ?sf else filter (sourceMatches sm) ?sf"
  obtain n where n: "getEligibleRowsByStatus allRows st sm mp excl = take n (dedupLoop excl [] ?src)"
    using slice0_take [of "dedupLoop excl [] ?src" mp]
    by (auto simp: getEligibleRowsByStatus_def Let_def)
  from assms n have mem: "x \<in> set (dedupLoop excl [] ?src)"
    by (auto dest: in_set_takeD)
  then show "hasUsername x" by (rule dedupLoop_hasUsername)
  from mem show "keyOf x \<notin> excl" by (rule dedupLoop_keys_fresh)
  from mem dedupLoop_subset have "x \<in> set ?src" by blast
  then show "statusMatches st x" by (auto split: if_splits)
qed

lemma getEligible_distinct:
  "distinct (map keyOf (getEligibleRowsByStatus allRows st sm mp excl))"
proof -
  let ?sf = "filter (statusMatches st) allRows"
  let ?src = "if sm = ''all'' then ?sf else filter (sourceMatches sm) ?sf"
  obtain n where n: "getEligibleRowsByStatus allRows st sm mp excl = take n (dedupLoop excl [] ?src)"
    using slice0_take [of "dedupLoop excl [] ?src" mp]
    by (auto simp: getEligibleRowsByStatus_def Let_def)
  show ?thesis
    unfolding n using dedupLoop_distinct [of excl ?src]
    by (simp add: take_map [symmetric])
qed

lemma slice0_set: "x \<in> set (slice0 xs k) \<Longrightarrow> x \<in> set xs"
  using slice0_take [of xs k] by (auto dest: in_set_takeD)

lemma slice0_distinct: "distinct (map f xs) \<Longrightarrow> distinct (map f (slice0 xs k))"
  using slice0_take [of xs k] by (auto simp: take_map [symmetric])

lemma slice0_None: "slice0 xs None = []"
  by (simp add: slice0_def)

subsection \<open>The shape of the selected rows\<close>

lemma disjoint_images:
  assumes "\<forall>x \<in> B. f x \<notin> f ` A"
  shows "f ` A \<inter> f ` B = {}"
proof (rule ccontr)
  assume "f ` A \<inter> f ` B \<noteq> {}"
  then obtain y where yA: "y \<in> f ` A" and yB: "y \<in> f ` B" by auto
  from yB obtain b where b: "b \<in> B" and y: "y = f b" by auto
  from assms b have "f b \<notin> f ` A" by (rule bspec)
  with yA y show False by simp
qed

lemma selectRows_parts:
  assumes ok: "selectRows allRows a sm mp ef fs md = Inr res"
  shows "rows res = primaryPart res @ fallbackPart res"
    and "selectedPrimary (stats res) = length (primaryPart res)"
    and "selectedFallback (stats res) = length (fallbackPart res)"
    and "totalSelected (stats res) = length (rows res)"
    and "\<forall>x \<in> set (primaryPart res). hasUsername x \<and> statusMatches a x"
    and "distinct (map keyOf (primaryPart res))"
    and "\<forall>x \<in> set (fallbackPart res). hasUsername x
            \<and> ef \<and> (\<exists>f. fs = Some f \<and> statusMatches f x)"
    and "keyOf ` set (primaryPart res) \<inter> keyOf ` set (fallbackPart res) = {}"
    and "distinct (map keyOf (fallbackPart res))"
    and "md = None \<longrightarrow> rows res = []"
    and "\<forall>m. md = Some m \<and> 0 \<le> m \<longrightarrow> int (length (rows res)) \<le> m"
proof -
  let ?pe = "getEligibleRowsByStatus allRows a sm (Some mp) {}"
  let ?sp = "slice0 ?pe md"
  have sp_valid: "\<forall>x \<in> set ?sp. hasUsername x \<and> statusMatches a x"
  proof
    fix x assume "x \<in> set ?sp"
    then have "x \<in> set ?pe" by (rule slice0_set)
    then show "hasUsername x \<and> statusMatches a x"
      using getEligible_props(1,2) [of x allRows a sm "Some mp" "{}"] by simp
  qed
  have sp_dist: "distinct (map keyOf ?sp)"
    by (rule slice0_distinct) (rule getEligible_distinct)
  have keys: "those (map usernameKey ?sp) = Some (map keyOf ?sp)"
    using sp_valid by (simp add: those_usernameKey)
  define use where "use \<longleftrightarrow> ef \<and> (case md of None \<Rightarrow> False | Some m \<Rightarrow> int (length ?sp) < m)"
  define fe where "fe = (if use then (case fs of None \<Rightarrow> []
               | Some f \<Rightarrow> getEligibleRowsByStatus allRows f sm (Some mp) (set (map keyOf ?sp)))
             else [])"
  define sf where "sf = (if use then slice0 fe (map_option (\<lambda>m. m - int (length ?sp)) md) else [])"
  have res: "res = \<lparr> rows = ?sp @ sf,
                stats = \<lparr> primaryEligible = length ?pe, fallbackEligible = length fe,
                          selectedPrimary = length ?sp, selectedFallback = length sf,
                          totalSelected = length (?sp @ sf) \<rparr> \<rparr>"
    using ok unfolding selectRows_def Let_def keys sf_def fe_def use_def by simp
  have sf_valid: "\<forall>x \<in> set sf. hasUsername x \<and> keyOf x \<notin> keyOf ` set ?sp
                    \<and> ef \<and> (\<exists>f. fs = Some f \<and> statusMatches f x)"
  proof
    fix x assume "x \<in> set sf"
    then have u: "use" and "x \<in> set fe"
      by (auto simp: sf_def split: if_splits dest: slice0_set)
    then obtain f where f: "fs = Some f"
      and x: "x \<in> set (getEligibleRowsByStatus allRows f sm (Some mp) (set (map keyOf ?sp)))"
      by (cases fs) (auto simp: fe_def split: if_splits)
    from getEligible_props [OF x] u f
    show "hasUsername x \<and> keyOf x \<notin> keyOf ` set ?sp \<and> ef \<and> (\<exists>f. fs = Some f \<and> statusMatches f x)"
      by (auto simp: use_def)
  qed
  have fe_dist: "distinct (map keyOf fe)"
    by (cases fs) (auto simp: fe_def intro: getEligible_distinct)
  have sf_dist: "distinct (map keyOf sf)"
    using fe_dist by (auto simp: sf_def intro: slice0_distinct)
  have none: "md = None \<longrightarrow> ?sp = [] \<and> sf = []"
    by (auto simp: slice0_None sf_def)
  have bound: "\<forall>m. md = Some m \<and> 0 \<le> m \<longrightarrow> int (length ?sp) + int (length sf) \<le> m"
  proof (intro allI impI)
    fix m assume m: "md = Some m \<and> 0 \<le> m"
    then have l: "int (length ?sp) \<le> m" using slice0_length [of m ?pe] by simp
    show "int (length ?sp) + int (length sf) \<le> m"
    proof (cases use)
      case True
      with m have pos: "0 \<le> m - int (length ?sp)" by (simp add: use_def)
      have "int (length sf) \<le> m - int (length ?sp)"
        using True m slice0_length [OF pos, of fe] by (simp add: sf_def)
      then show ?thesis by simp
    next
      case False
      then have "sf = []" by (simp add: sf_def)
      then show ?thesis using l by simp
    qed
  qed
  have pp: "primaryPart res = ?sp" and fp: "fallbackPart res = sf"
    by (simp_all add: res primaryPart_def fallbackPart_def)
  have rr: "rows res = ?sp @ sf" by (simp add: res)
  show "rows res = primaryPart res @ fallbackPart res"
    by (simp add: primaryPart_def fallbackPart_def)
  show "selectedPrimary (stats res) = length (primaryPart res)"
    unfolding pp by (simp add: res)
  show "selectedFallback (stats res) = length (fallbackPart res)"
    unfolding fp by (simp add: res)
  show "totalSelected (stats res) = length (rows res)"
    by (simp add: res)
  show "\<forall>x \<in> set (primaryPart res). hasUsername x \<and> statusMatches a x"
    unfolding pp by (rule sp_valid)
  show "distinct (map keyOf (primaryPart res))"
    unfolding pp by (rule sp_dist)
  show "\<forall>x \<in> set (fallbackPart res). hasUsername x
            \<and> ef \<and> (\<exists>f. fs = Some f \<and> statusMatches f x)"
    unfolding fp using sf_valid by simp
  have "\<forall>x \<in> set sf. keyOf x \<notin> keyOf ` set ?sp"
    using sf_valid by simp
  then have "keyOf ` set ?sp \<inter> keyOf ` set sf = {}"
    by (rule disjoint_images)
  then show "keyOf ` set (primaryPart res) \<inter> keyOf ` set (fallbackPart res) = {}"
    by (simp only: pp fp)
  show "distinct (map keyOf (fallbackPart res))"
    unfolding fp by (rule sf_dist)
  show "md = None \<longrightarrow> rows res = []"
    unfolding rr using none by simp
  show "\<forall>m. md = Some m \<and> 0 \<le> m \<longrightarrow> int (length (rows res)) \<le> m"
    unfolding rr using bound by simp
qed


lemma loadFilteredDatabase_Inr:
  assumes "loadFilteredDatabase e loaded = Inr res"
  shows "\<exists>allRows sm mp fs. loaded = LoadRows allRows \<and> validateSourceMode e = Inr sm
           \<and> validateMaxProcess e = Inr mp \<and> validateFallbackStatus e = Inr fs
           \<and> selectRows allRows (validateActivateStatus e) sm mp (parseEnableFallback e) fs
                 (parseIntEnv (e ''MAX_DRAFT'')) = Inr res"
  using assms
  by (auto simp: loadFilteredDatabase_def Let_def split: sum.splits load_result.splits)

text \<open>
  Claim C1. \<open>run\<close> of main.js calls \<open>validateEnv\<close> first and stops where it throws;
  \<open>loadFilteredDatabase\<close> then reads the same environment. Whenever both return, the
  worklist has at most \<open>maxDraft\<close> rows, \<open>maxDraft\<close> being the cap of the
  configuration; no two rows have the same username after lowercasing and trimming; every
  row has a username that is a string and is not blank. Each pool that
  \<open>getEligibleRowsByStatus\<close> returns has the same properties, for every list of rows:
  at most \<open>maxProcess\<close> rows, no two with the same normalized username, none without
  a username and none with an excluded one.
\<close>

theorem worklist_within_cap:
  assumes "validateEnv w e = Inr cfg" and "loadFilteredDatabase e loaded = Inr res"
  shows "(\<exists>m. config.maxDraft cfg = Some m \<and> 1 \<le> m \<and> int (length (rows res)) \<le> m)
       \<and> (\<exists>ks. those (map usernameKey (rows res)) = Some ks \<and> distinct ks)
       \<and> (\<forall>x \<in> set (rows res). hasUsername x)
       \<and> (\<exists>k. config.maxProcess cfg = Some k \<and> 1 \<le> k
             \<and> int (length (getEligibleRowsByStatus pool st mode (config.maxProcess cfg)
                              excluded)) \<le> k)
       \<and> distinct (map keyOf (getEligibleRowsByStatus pool st mode cap excluded))
       \<and> (\<forall>x \<in> set (getEligibleRowsByStatus pool st mode cap excluded).
             hasUsername x \<and> keyOf x \<notin> excluded)"
proof -
  from validateEnv_maxProcess [OF assms(1)] obtain k where
    k: "config.maxProcess cfg = Some k" "1 \<le> k"
    by blast
  have "int (length (getEligibleRowsByStatus pool st mode (Some k) excluded)) \<le> k"
    using k(2) by (simp add: getEligibleRowsByStatus_def Let_def slice0_length)
  with k have pool: "\<exists>k. config.maxProcess cfg = Some k \<and> 1 \<le> k
             \<and> int (length (getEligibleRowsByStatus pool st mode (config.maxProcess cfg)
                              excluded)) \<le> k"
    by simp
  have pool': "\<forall>x \<in> set (getEligibleRowsByStatus pool st mode cap excluded).
             hasUsername x \<and> keyOf x \<notin> excluded"
    using getEligible_props(1) getEligible_props(3) by blast
  note pool'' = getEligible_distinct [of pool st mode cap excluded]
  from loadFilteredDatabase_Inr [OF assms(2)] obtain allRows sm mp fs where
    sel: "selectRows allRows (validateActivateStatus e) sm mp (parseEnableFallback e) fs
            (parseIntEnv (e ''MAX_DRAFT'')) = Inr res"
    by blast
  note parts = selectRows_parts [OF sel]
  have valid: "\<forall>x \<in> set (rows res). hasUsername x"
    using parts(5) parts(7) by (subst parts(1)) auto
  have "distinct (map keyOf (rows res))"
    using parts(6) parts(8) parts(9) by (subst parts(1)) simp
  with those_usernameKey [OF valid]
  have keys: "\<exists>ks. those (map usernameKey (rows res)) = Some ks \<and> distinct ks" by simp
  from validateEnv_maxDraft [OF assms(1)] obtain m where
    m: "parseIntEnv (e ''MAX_DRAFT'') = Some m" "1 \<le> m" "config.maxDraft cfg = Some m"
    by blast
  with parts(11) have "int (length (rows res)) \<le> m" by simp
  with m have cap: "\<exists>m. config.maxDraft cfg = Some m \<and> 1 \<le> m \<and> int (length (rows res)) \<le> m"
    by simp
  show ?thesis using cap keys valid pool pool' pool'' by simp
qed


theorem worklist_within_cap_witness:
  "validateEnv granted (sampleEnv(''MAX_DRAFT'' \<mapsto> ''3'', ''ENABLE_FALLBACK'' \<mapsto> ''true''))
   = Inr \<lparr> instagramUsername = ''your_instagram_username'', sheetId = ''your_sheet_id_here'',
           sheetName = ''Sheet1'', draftMessage = ''Hey! Thanks for following.'',
           activateStatus = ''Pending'', sourceMode = ''all'', maxDraft = Some 3,
           maxProcess = Some 100, detectConversation = False, sendMessage = False,
           enableFallback = True, fallbackStatus = Some ''Secondary'' \<rparr>
   \<and> loadFilteredDatabase (sampleEnv(''MAX_DRAFT'' \<mapsto> ''3'', ''ENABLE_FALLBACK'' \<mapsto> ''true''))
     (LoadRows [Obj (createMockRow 0 ''user1'' ''likes'' ''Pending''),
                Obj (createMockRow 1 ''user1'' ''likes'' ''Secondary''),
                Obj (createMockRow 2 ''user2'' ''likes'' ''Secondary''),
                Obj (createMockRow 3 ''user3'' ''likes'' ''Secondary'')])
   = Inr \<lparr> rows = [Obj (createMockRow 0 ''user1'' ''likes'' ''Pending''),
                   Obj (createMockRow 2 ''user2'' ''likes'' ''Secondary''),
                   Obj (createMockRow 3 ''user3'' ''likes'' ''Secondary'')],
           stats = \<lparr> primaryEligible = 1, fallbackEligible = 2, selectedPrimary = 1,
                     selectedFallback = 2, totalSelected = 3 \<rparr> \<rparr>
   \<and> int (length [Obj (createMockRow 0 ''user1'' ''likes'' ''Pending''),
                   Obj (createMockRow 2 ''user2'' ''likes'' ''Secondary''),
                   Obj (createMockRow 3 ''user3'' ''likes'' ''Secondary'')]) \<le> 3
   \<and> list_all hasUsername [Obj (createMockRow 0 ''user1'' ''likes'' ''Pending''),
                   Obj (createMockRow 2 ''user2'' ''likes'' ''Secondary''),
                   Obj (createMockRow 3 ''user3'' ''likes'' ''Secondary'')]"
proof -
  let ?e = "sampleEnv(''MAX_DRAFT'' \<mapsto> ''3'', ''ENABLE_FALLBACK'' \<mapsto> ''true'')"
  let ?cfg = "\<lparr> instagramUsername = ''your_instagram_username'', sheetId = ''your_sheet_id_here'',
           sheetName = ''Sheet1'', draftMessage = ''Hey! Thanks for following.'',
           activateStatus = ''Pending'', sourceMode = ''all'', maxDraft = Some 3,
           maxProcess = Some 100, detectConversation = False, sendMessage = False,
           enableFallback = True, fallbackStatus = Some ''Secondary'' \<rparr>"
  let ?out = "[Obj (createMockRow 0 ''user1'' ''likes'' ''Pending''),
               Obj (createMockRow 2 ''user2'' ''likes'' ''Secondary''),
               Obj (createMockRow 3 ''user3'' ''likes'' ''Secondary'')]"
  let ?res = "\<lparr> rows = ?out,
           stats = \<lparr> primaryEligible = 1, fallbackEligible = 2, selectedPrimary = 1,
                     selectedFallback = 2, totalSelected = 3 \<rparr> \<rparr>"
  have run: "loadFilteredDatabase ?e
     (LoadRows [Obj (createMockRow 0 ''user1'' ''likes'' ''Pending''),
                Obj (createMockRow 1 ''user1'' ''likes'' ''Secondary''),
                Obj (createMockRow 2 ''user2'' ''likes'' ''Secondary''),
                Obj (createMockRow 3 ''user3'' ''likes'' ''Secondary'')]) = Inr ?res"
    by code_simp
  have accepted: "validateEnv granted ?e = Inr ?cfg"
    by code_simp
  from worklist_within_cap [OF accepted run]
  have "int (length (rows ?res)) \<le> 3" and "\<forall>x \<in> set (rows ?res). hasUsername x"
    by simp_all
  then show ?thesis using run accepted by (simp add: list_all_iff)
qed

text \<open>
  Claim C4. In every worklist that \<open>loadFilteredDatabase\<close> returns, the rows selected from
  the primary pool (status equal to the activate status) are the first
  \<open>selectedPrimary\<close> rows, the rows selected from the fallback pool (status equal to the
  fallback status, fallback enabled) are all the rows after them, and no normalized username
  of the first part occurs in the second.
\<close>

theorem primary_before_fallback:
  assumes "loadFilteredDatabase e loaded = Inr res"
  shows "rows res = primaryPart res @ fallbackPart res
       \<and> length (primaryPart res) = selectedPrimary (stats res)
       \<and> length (fallbackPart res) = selectedFallback (stats res)
       \<and> (\<forall>x \<in> set (primaryPart res). statusMatches (validateActivateStatus e) x)
       \<and> (\<forall>x \<in> set (fallbackPart res). parseEnableFallback e \<and>
             (\<exists>f. validateFallbackStatus e = Inr (Some f) \<and> statusMatches f x))
       \<and> keyOf ` set (primaryPart res) \<inter> keyOf ` set (fallbackPart res) = {}"
proof -
  from loadFilteredDatabase_Inr [OF assms] obtain allRows sm mp fs where
    fs: "validateFallbackStatus e = Inr fs" and
    sel: "selectRows allRows (validateActivateStatus e) sm mp (parseEnableFallback e) fs
            (parseIntEnv (e ''MAX_DRAFT'')) = Inr res"
    by blast
  note parts = selectRows_parts [OF sel]
  have fb: "\<forall>x \<in> set (fallbackPart res). parseEnableFallback e \<and>
             (\<exists>f. validateFallbackStatus e = Inr (Some f) \<and> statusMatches f x)"
    using parts(7) fs by simp
  show ?thesis
    using parts(1) parts(2) parts(3) parts(5) fb parts(8) by simp
qed


theorem primary_before_fallback_witness:
  "loadFilteredDatabase (sampleEnv(''MAX_DRAFT'' \<mapsto> ''3'', ''ENABLE_FALLBACK'' \<mapsto> ''true''))
     (LoadRows [Obj (createMockRow 0 ''user1'' ''likes'' ''Pending''),
                Obj (createMockRow 1 ''user1'' ''likes'' ''Secondary''),
                Obj (createMockRow 2 ''user2'' ''likes'' ''Secondary''),
                Obj (createMockRow 3 ''user3'' ''likes'' ''Secondary'')])
   = Inr \<lparr> rows = [Obj (createMockRow 0 ''user1'' ''likes'' ''Pending''),
                   Obj (createMockRow 2 ''user2'' ''likes'' ''Secondary''),
                   Obj (createMockRow 3 ''user3'' ''likes'' ''Secondary'')],
           stats = \<lparr> primaryEligible = 1, fallbackEligible = 2, selectedPrimary = 1,
                     selectedFallback = 2, totalSelected = 3 \<rparr> \<rparr>
   \<and> list_all (statusMatches ''Pending'') [Obj (createMockRow 0 ''user1'' ''likes'' ''Pending'')]
   \<and> list_all (statusMatches ''Secondary'')
         [Obj (createMockRow 2 ''user2'' ''likes'' ''Secondary''),
          Obj (createMockRow 3 ''user3'' ''likes'' ''Secondary'')]
   \<and> keyOf ` set [Obj (createMockRow 0 ''user1'' ''likes'' ''Pending'')]
       \<inter> keyOf ` set [Obj (createMockRow 2 ''user2'' ''likes'' ''Secondary''),
                        Obj (createMockRow 3 ''user3'' ''likes'' ''Secondary'')] = {}"
proof -
  let ?e = "sampleEnv(''MAX_DRAFT'' \<mapsto> ''3'', ''ENABLE_FALLBACK'' \<mapsto> ''true'')"
  let ?p = "[Obj (createMockRow 0 ''user1'' ''likes'' ''Pending'')]"
  let ?f = "[Obj (createMockRow 2 ''user2'' ''likes'' ''Secondary''),
             Obj (createMockRow 3 ''user3'' ''likes'' ''Secondary'')]"
  let ?res = "\<lparr> rows = ?p @ ?f,
           stats = \<lparr> primaryEligible = 1, fallbackEligible = 2, selectedPrimary = 1,
                     selectedFallback = 2, totalSelected = 3 \<rparr> \<rparr>"
  have run: "loadFilteredDatabase ?e
     (LoadRows [Obj (createMockRow 0 ''user1'' ''likes'' ''Pending''),
                Obj (createMockRow 1 ''user1'' ''likes'' ''Secondary''),
                Obj (createMockRow 2 ''user2'' ''likes'' ''Secondary''),
                Obj (createMockRow 3 ''user3'' ''likes'' ''Secondary'')]) = Inr ?res"
    by code_simp
  have pp: "primaryPart ?res = ?p" and fp: "fallbackPart ?res = ?f"
    by (simp_all add: primaryPart_def fallbackPart_def)
  have act: "validateActivateStatus ?e = ''Pending''"
    by code_simp
  have fb: "validateFallbackStatus ?e = Inr (Some ''Secondary'')"
    by code_simp
  note t = primary_before_fallback [OF run]
  from t act have a: "list_all (statusMatches ''Pending'') ?p"
    unfolding pp by (simp add: list_all_iff)
  from t fb have b: "list_all (statusMatches ''Secondary'') ?f"
    unfolding fp by (simp add: list_all_iff)
  from t have c: "keyOf ` set ?p \<inter> keyOf ` set ?f = {}"
    unfolding pp fp by simp
  from run a b c show ?thesis by simp
qed

subsection \<open>The scenario of two pending and two secondary rows\<close>

lemma trim_Pending: "trim ''Pending'' = ''Pending''" by code_simp
lemma trim_Secondary: "trim ''Secondary'' = ''Secondary''" by code_simp
lemma trim_all: "toLowerCase (trim ''all'') = ''all''" by code_simp
lemma all_valid: "''all'' \<in> set VALID_SOURCE_MODES" by code_simp
lemma lower_true: "toLowerCase (trim ''true'') = ''true''" by code_simp
lemma parse_100: "parseInt ''100'' = Some 100" by code_simp
lemma parse_3: "parseInt ''3'' = Some 3" by code_simp

text \<open>
  Claim C5, as the code has it. Four rows with statuses Pending, Pending, Secondary,
  Secondary and four different usernames, per-pool cap 100, worklist cap 3, source mode
  \<open>all\<close>, fallback enabled with status Secondary: both Pending rows are selected first and
  one Secondary row fills the remaining slot, so the worklist is row 0, row 1, row 2 and the
  statistics are 2 primary eligible, 2 fallback eligible, 2 selected from primary, 1 from
  fallback, 3 in total.
\<close>

theorem fallback_fills_remaining_slot:
  assumes env: "e ''ACTIVATE_STATUS'' = Some ''Pending''" "e ''SOURCE_MODE'' = Some ''all''"
      "e ''MAX_PROCCESS'' = Some ''100''" "e ''MAX_DRAFT'' = Some ''3''"
      "e ''ENABLE_FALLBACK'' = Some ''true''" "e ''FALLBACK_STATUS'' = Some ''Secondary''"
    and st: "row.status r0 = JString ''Pending''" "row.status r1 = JString ''Pending''"
      "row.status r2 = JString ''Secondary''" "row.status r3 = JString ''Secondary''"
    and un: "row.username r0 = JString u0" "row.username r1 = JString u1"
      "row.username r2 = JString u2" "row.username r3 = JString u3"
    and nonblank: "trim u0 \<noteq> []" "trim u1 \<noteq> []" "trim u2 \<noteq> []" "trim u3 \<noteq> []"
    and distinct: "distinct (map (\<lambda>u. trim (toLowerCase u)) [u0, u1, u2, u3])"
  shows "loadFilteredDatabase e (LoadRows [Obj r0, Obj r1, Obj r2, Obj r3])
         = Inr \<lparr> rows = [Obj r0, Obj r1, Obj r2],
                 stats = \<lparr> primaryEligible = 2, fallbackEligible = 2, selectedPrimary = 2,
                           selectedFallback = 1, totalSelected = 3 \<rparr> \<rparr>"
proof -
  have ne: "u0 \<noteq> []" "u1 \<noteq> []" "u2 \<noteq> []" "u3 \<noteq> []"
    using nonblank by (auto simp: trim_def)
  have act: "validateActivateStatus e = ''Pending''"
    using env(1) by (simp add: validateActivateStatus_def trim_Pending)
  have sm: "validateSourceMode e = Inr ''all''"
    using env(2) all_valid by (simp add: validateSourceMode_def trim_all Let_def)
  have mp: "validateMaxProcess e = Inr 100"
    using env(3) by (simp add: validateMaxProcess_def parse_100)
  have ef: "parseEnableFallback e"
    using env(5) by (simp add: parseEnableFallback_def lower_true)
  have fs: "validateFallbackStatus e = Inr (Some ''Secondary'')"
    using env(6) ef by (simp add: validateFallbackStatus_def trim_Secondary)
  have md: "parseIntEnv (e ''MAX_DRAFT'') = Some 3"
    using env(4) by (simp add: parseIntEnv_def parse_3)
  have p: "filter (statusMatches ''Pending'') [Obj r0, Obj r1, Obj r2, Obj r3] = [Obj r0, Obj r1]"
    using st by (simp add: statusMatches_def trim_Pending trim_Secondary)
  have s: "filter (statusMatches ''Secondary'') [Obj r0, Obj r1, Obj r2, Obj r3] = [Obj r2, Obj r3]"
    using st by (simp add: statusMatches_def trim_Pending trim_Secondary)
  have neq: "trim (toLowerCase u1) \<noteq> trim (toLowerCase u0)"
      "trim (toLowerCase u2) \<noteq> trim (toLowerCase u0)"
      "trim (toLowerCase u2) \<noteq> trim (toLowerCase u1)"
      "trim (toLowerCase u3) \<noteq> trim (toLowerCase u0)"
      "trim (toLowerCase u3) \<noteq> trim (toLowerCase u1)"
      "trim (toLowerCase u3) \<noteq> trim (toLowerCase u2)"
    using distinct by auto
  have pe: "getEligibleRowsByStatus [Obj r0, Obj r1, Obj r2, Obj r3] ''Pending'' ''all'' (Some 100) {}
            = [Obj r0, Obj r1]"
    unfolding getEligibleRowsByStatus_def Let_def p
    using un nonblank ne neq by (simp add: slice0_def)
  have sp: "slice0 [Obj r0, Obj r1] (Some 3) = [Obj r0, Obj r1]"
    by (simp add: slice0_def)
  have keys: "those (map usernameKey [Obj r0, Obj r1])
              = Some [trim (toLowerCase u0), trim (toLowerCase u1)]"
    using un by (simp add: usernameKey_def)
  have fe: "getEligibleRowsByStatus [Obj r0, Obj r1, Obj r2, Obj r3] ''Secondary'' ''all'' (Some 100)
              {trim (toLowerCase u0), trim (toLowerCase u1)} = [Obj r2, Obj r3]"
    unfolding getEligibleRowsByStatus_def Let_def s
    using un nonblank ne neq by (simp add: slice0_def)
  have sf: "slice0 [Obj r2, Obj r3] (Some 1) = [Obj r2]"
    by (simp add: slice0_def)
  have "selectRows [Obj r0, Obj r1, Obj r2, Obj r3] ''Pending'' ''all'' 100 True (Some ''Secondary'')
          (Some 3)
        = Inr \<lparr> rows = [Obj r0, Obj r1, Obj r2],
                 stats = \<lparr> primaryEligible = 2, fallbackEligible = 2, selectedPrimary = 2,
                           selectedFallback = 1, totalSelected = 3 \<rparr> \<rparr>"
    unfolding selectRows_def pe sp keys Let_def
    by (simp add: fe sf)
  then show ?thesis
    using ef by (simp add: loadFilteredDatabase_def act sm mp fs md Let_def)
qed

theorem fallback_fills_remaining_slot_witness:
  "loadFilteredDatabase (sampleEnv(''MAX_DRAFT'' \<mapsto> ''3'', ''ENABLE_FALLBACK'' \<mapsto> ''true''))
     (LoadRows [Obj (createMockRow 0 ''user1'' ''likes'' ''Pending''),
                Obj (createMockRow 1 ''user2'' ''likes'' ''Pending''),
                Obj (createMockRow 2 ''user3'' ''likes'' ''Secondary''),
                Obj (createMockRow 3 ''user4'' ''likes'' ''Secondary'')])
   = Inr \<lparr> rows = [Obj (createMockRow 0 ''user1'' ''likes'' ''Pending''),
                   Obj (createMockRow 1 ''user2'' ''likes'' ''Pending''),
                   Obj (createMockRow 2 ''user3'' ''likes'' ''Secondary'')],
           stats = \<lparr> primaryEligible = 2, fallbackEligible = 2, selectedPrimary = 2,
                     selectedFallback = 1, totalSelected = 3 \<rparr> \<rparr>"
proof -
  let ?e = "sampleEnv(''MAX_DRAFT'' \<mapsto> ''3'', ''ENABLE_FALLBACK'' \<mapsto> ''true'')"
  have e: "?e ''ACTIVATE_STATUS'' = Some ''Pending''" "?e ''SOURCE_MODE'' = Some ''all''"
      "?e ''MAX_PROCCESS'' = Some ''100''" "?e ''MAX_DRAFT'' = Some ''3''"
      "?e ''ENABLE_FALLBACK'' = Some ''true''" "?e ''FALLBACK_STATUS'' = Some ''Secondary''"
    by (simp_all add: sampleEnv_def)
  have u: "trim (toLowerCase ''user1'') = ''user1''" "trim (toLowerCase ''user2'') = ''user2''"
      "trim (toLowerCase ''user3'') = ''user3''" "trim (toLowerCase ''user4'') = ''user4''"
      "trim ''user1'' = ''user1''" "trim ''user2'' = ''user2''"
      "trim ''user3'' = ''user3''" "trim ''user4'' = ''user4''"
    by code_simp+
  show ?thesis
    unfolding createMockRow_def
    by (rule fallback_fills_remaining_slot
          [where ?u0.0 = "''user1''" and ?u1.0 = "''user2''" and ?u2.0 = "''user3''"
             and ?u3.0 = "''user4''", OF e])
       (simp_all add: u)
qed

text \<open>
  The result that claim C5 states (one primary row, two fallback rows) is not what the code
  returns on these rows: with a cap of 3 both Pending rows are taken before any fallback row.
\<close>

theorem one_primary_two_fallback_counterexample:
  "loadFilteredDatabase (sampleEnv(''MAX_DRAFT'' \<mapsto> ''3'', ''ENABLE_FALLBACK'' \<mapsto> ''true''))
     (LoadRows [Obj (createMockRow 0 ''user1'' ''likes'' ''Pending''),
                Obj (createMockRow 1 ''user2'' ''likes'' ''Pending''),
                Obj (createMockRow 2 ''user3'' ''likes'' ''Secondary''),
                Obj (createMockRow 3 ''user4'' ''likes'' ''Secondary'')])
   \<noteq> Inr \<lparr> rows = [Obj (createMockRow 0 ''user1'' ''likes'' ''Pending''),
                   Obj (createMockRow 2 ''user3'' ''likes'' ''Secondary''),
                   Obj (createMockRow 3 ''user4'' ''likes'' ''Secondary'')],
           stats = \<lparr> primaryEligible = 2, fallbackEligible = 2, selectedPrimary = 1,
                     selectedFallback = 2, totalSelected = 3 \<rparr> \<rparr>"
  by code_simp

section \<open>Properties of the controller that opens the conversation\<close>

lemma caught_success: "flow_result.success (caught name out) = flowSucceeds out"
  by (cases out) (simp_all add: caught_def flowSucceeds_def)

text \<open>
  Claim C7. The controller calls flow 1 first and flow 2 only when flow 1 did not succeed,
  where a flow that throws counts as one that failed: its exception becomes a result with
  \<open>success = false\<close> and the message as \<open>error\<close>, and the controller always returns a
  result. Flow 1 failing and flow 2 succeeding gives \<open>success = true\<close> with \<open>used = flow2\<close>;
  both failing gives \<open>success = false\<close> with the two failure results, which hold the
  reasons, in \<open>flow1\<close> and \<open>flow2\<close>.
\<close>

theorem controller_tries_flow1_then_flow2:
  "calls (openDMController w) =
     (if flowSucceeds (openDirectMessage w) then [CalledFlow1] else [CalledFlow1, CalledFlow2])
   \<and> (flowSucceeds (openDirectMessage w) \<longrightarrow>
        dm_result.success (openDMController w) \<and> used (openDMController w) = ''flow1'')
   \<and> (\<not> flowSucceeds (openDirectMessage w) \<and> flowSucceeds (openDMViaOptionsMenu w) \<longrightarrow>
        dm_result.success (openDMController w) \<and> used (openDMController w) = ''flow2'')
   \<and> (\<not> flowSucceeds (openDirectMessage w) \<and> \<not> flowSucceeds (openDMViaOptionsMenu w) \<longrightarrow>
        \<not> dm_result.success (openDMController w) \<and> used (openDMController w) = ''none''
        \<and> flow1 (openDMController w) = caught ''flow1'' (openDirectMessage w)
        \<and> flow2 (openDMController w) = Some (caught ''flow2'' (openDMViaOptionsMenu w)))
   \<and> (\<forall>r. openDirectMessage w = Returns r \<longrightarrow> flow1 (openDMController w) = r)
   \<and> (\<forall>msg. openDirectMessage w = Throws msg \<longrightarrow>
        flow1 (openDMController w)
          = \<lparr> flow_result.success = False, method = ''flow1'', error = Some msg, reason = None \<rparr>)
   \<and> (\<forall>r. \<not> flowSucceeds (openDirectMessage w) \<and> openDMViaOptionsMenu w = Returns r \<longrightarrow>
        flow2 (openDMController w) = Some r)
   \<and> (\<forall>msg. \<not> flowSucceeds (openDirectMessage w) \<and> openDMViaOptionsMenu w = Throws msg \<longrightarrow>
        flow2 (openDMController w)
          = Some \<lparr> flow_result.success = False, method = ''flow2'', error = Some msg,
                   reason = None \<rparr>)"
  by (simp add: openDMController_def Let_def caught_success) (simp add: caught_def)

theorem controller_tries_flow1_then_flow2_witness:
  "\<not> flowSucceeds (Throws ''Timeout 7000ms exceeded'')
   \<and> flowSucceeds (Returns \<lparr> flow_result.success = True, method = ''flow2'', error = None,
                              reason = None \<rparr>)
   \<and> openDMController
         \<lparr> openDirectMessage = Throws ''Timeout 7000ms exceeded'',
           openDMViaOptionsMenu = Returns \<lparr> flow_result.success = True, method = ''flow2'',
                                            error = None, reason = None \<rparr> \<rparr>
       = \<lparr> dm_result.success = True, used = ''flow2'',
           flow1 = \<lparr> flow_result.success = False, method = ''flow1'',
                     error = Some ''Timeout 7000ms exceeded'', reason = None \<rparr>,
           flow2 = Some \<lparr> flow_result.success = True, method = ''flow2'', error = None,
                          reason = None \<rparr>,
           calls = [CalledFlow1, CalledFlow2] \<rparr>
   \<and> \<not> flowSucceeds (Returns \<lparr> flow_result.success = False, method = ''flow1'',
                                error = Some ''Message button not found'', reason = None \<rparr>)
   \<and> \<not> flowSucceeds (Returns \<lparr> flow_result.success = False, method = ''flow2'', error = None,
                                reason = Some ''options_icon_not_found'' \<rparr>)
   \<and> openDMController
         \<lparr> openDirectMessage = Returns \<lparr> flow_result.success = False, method = ''flow1'',
                                error = Some ''Message button not found'', reason = None \<rparr>,
           openDMViaOptionsMenu = Returns \<lparr> flow_result.success = False, method = ''flow2'',
                                error = None, reason = Some ''options_icon_not_found'' \<rparr> \<rparr>
       = \<lparr> dm_result.success = False, used = ''none'',
           flow1 = \<lparr> flow_result.success = False, method = ''flow1'',
                     error = Some ''Message button not found'', reason = None \<rparr>,
           flow2 = Some \<lparr> flow_result.success = False, method = ''flow2'', error = None,
                          reason = Some ''options_icon_not_found'' \<rparr>,
           calls = [CalledFlow1, CalledFlow2] \<rparr>"
proof -
  let ?w1 = "\<lparr> openDirectMessage = Throws ''Timeout 7000ms exceeded'',
           openDMViaOptionsMenu = Returns \<lparr> flow_result.success = True, method = ''flow2'',
                                            error = None, reason = None \<rparr> \<rparr>"
  let ?w2 = "\<lparr> openDirectMessage = Returns \<lparr> flow_result.success = False, method = ''flow1'',
                                error = Some ''Message button not found'', reason = None \<rparr>,
           openDMViaOptionsMenu = Returns \<lparr> flow_result.success = False, method = ''flow2'',
                                error = None, reason = Some ''options_icon_not_found'' \<rparr> \<rparr>"
  have f: "\<not> flowSucceeds (openDirectMessage ?w1)" "flowSucceeds (openDMViaOptionsMenu ?w1)"
      "\<not> flowSucceeds (openDirectMessage ?w2)" "\<not> flowSucceeds (openDMViaOptionsMenu ?w2)"
    by (simp_all add: flowSucceeds_def)
  note t1 = controller_tries_flow1_then_flow2 [of ?w1]
  note t2 = controller_tries_flow1_then_flow2 [of ?w2]
  have r1: "dm_result.success (openDMController ?w1)" "used (openDMController ?w1) = ''flow2''"
      "calls (openDMController ?w1) = [CalledFlow1, CalledFlow2]"
    using t1 f(1,2) by simp_all
  have r2: "\<not> dm_result.success (openDMController ?w2)" "used (openDMController ?w2) = ''none''"
      "calls (openDMController ?w2) = [CalledFlow1, CalledFlow2]"
    using t2 f(3,4) by simp_all
  have e1: "flow1 (openDMController ?w1) = \<lparr> flow_result.success = False, method = ''flow1'',
                     error = Some ''Timeout 7000ms exceeded'', reason = None \<rparr>"
      "flow2 (openDMController ?w1) = Some \<lparr> flow_result.success = True, method = ''flow2'',
                     error = None, reason = None \<rparr>"
    using t1 f(1) by simp_all
  have e2: "flow1 (openDMController ?w2) = \<lparr> flow_result.success = False, method = ''flow1'',
                                error = Some ''Message button not found'', reason = None \<rparr>"
      "flow2 (openDMController ?w2) = Some \<lparr> flow_result.success = False, method = ''flow2'',
                                error = None, reason = Some ''options_icon_not_found'' \<rparr>"
    using t2 f(3) by simp_all
  have "openDMController ?w1 = \<lparr> dm_result.success = True, used = ''flow2'',
           flow1 = \<lparr> flow_result.success = False, method = ''flow1'',
                     error = Some ''Timeout 7000ms exceeded'', reason = None \<rparr>,
           flow2 = Some \<lparr> flow_result.success = True, method = ''flow2'', error = None,
                          reason = None \<rparr>,
           calls = [CalledFlow1, CalledFlow2] \<rparr>"
    using r1 e1 by (cases "openDMController ?w1") simp
  moreover have "openDMController ?w2 = \<lparr> dm_result.success = False, used = ''none'',
           flow1 = \<lparr> flow_result.success = False, method = ''flow1'',
                     error = Some ''Message button not found'', reason = None \<rparr>,
           flow2 = Some \<lparr> flow_result.success = False, method = ''flow2'', error = None,
                          reason = Some ''options_icon_not_found'' \<rparr>,
           calls = [CalledFlow1, CalledFlow2] \<rparr>"
    using r2 e2 by (cases "openDMController ?w2") simp
  ultimately show ?thesis using f by simp
qed

section \<open>Properties of the message builder\<close>

lemma indexOf_char_None: "indexOf t [c] = None \<longleftrightarrow> c \<notin> set t"
  by (induction t) auto

lemma indexOf_char_Some:
  "indexOf t [c] = Some i \<Longrightarrow> take i t @ c # drop (Suc i) t = t \<and> c \<notin> set (take i t) \<and> i < length t"
proof (induction t arbitrary: i)
  case Nil
  then show ?case by simp
next
  case (Cons a t)
  show ?case
  proof (cases "a = c")
    case True
    with Cons.prems show ?thesis by simp
  next
    case False
    with Cons.prems obtain j where j: "indexOf t [c] = Some j" and i: "i = Suc j"
      by auto
    from Cons.IH [OF j] i False show ?thesis by simp
  qed
qed

text \<open>
  What \<open>buildDraftMessage\<close> returns on every name, template and separator of one
  character.
\<close>

lemma buildDraftMessage_cases:
  "(trim nm = [] \<longrightarrow> buildDraftMessage nm template [c] = trim template)
   \<and> (template = [] \<longrightarrow> buildDraftMessage nm template [c] = [])
   \<and> (trim nm \<noteq> [] \<and> template \<noteq> [] \<and> c \<notin> set (trim template) \<longrightarrow>
        buildDraftMessage nm template [c]
          = trim nm @ [c] @ '' '' @ trim template)
   \<and> (trim nm \<noteq> [] \<and> c \<in> set (trim template) \<longrightarrow>
        (\<exists>before after. trim template = before @ c # after \<and> c \<notin> set before
           \<and> buildDraftMessage nm template [c]
               = before @ '' '' @ trim nm @ c # after))
   \<and> buildDraftMessage ''John'' ''Hey! Thanks for following.'' ''!''
        = ''Hey John! Thanks for following.''"
proof (intro conjI impI)
  have t0: "trim [] = []" by (simp add: trim_def)
  show "buildDraftMessage ''John'' ''Hey! Thanks for following.'' ''!''
        = ''Hey John! Thanks for following.''"
    by code_simp
  show "buildDraftMessage nm template [c] = []" if "template = []"
    using that by (simp add: buildDraftMessage_def)
  show "buildDraftMessage nm template [c] = trim template"
    if "trim nm = []"
    using that t0 by (simp add: buildDraftMessage_def Let_def)
  show "buildDraftMessage nm template [c]
          = trim nm @ [c] @ '' '' @ trim template"
    if "trim nm \<noteq> [] \<and> template \<noteq> [] \<and> c \<notin> set (trim template)"
  proof -
    from that have "indexOf (trim template) [c] = None"
      by (simp add: indexOf_char_None)
    with that t0 show ?thesis
      by (auto simp: buildDraftMessage_def Let_def)
  qed
  show "\<exists>before after. trim template = before @ c # after \<and> c \<notin> set before
           \<and> buildDraftMessage nm template [c]
               = before @ '' '' @ trim nm @ c # after"
    if h: "trim nm \<noteq> [] \<and> c \<in> set (trim template)"
  proof -
    from h have ne: "template \<noteq> []" "nm \<noteq> []" using t0 by auto
    from h obtain i where i: "indexOf (trim template) [c] = Some i"
      using indexOf_char_None [of "trim template" c] by auto
    note s = indexOf_char_Some [OF i]
    have d: "drop i (trim template) = c # drop (Suc i) (trim template)"
      using s by (metis append_eq_conv_conj append_take_drop_id)
    have "buildDraftMessage nm template [c]
            = take i (trim template) @ '' '' @ trim nm
              @ c # drop (Suc i) (trim template)"
      using h ne i d by (simp add: buildDraftMessage_def Let_def)
    with s show ?thesis by metis
  qed
qed

text \<open>
  The values that reach \<open>buildDraftMessage\<close>: \<open>extractFirstName\<close> returns a name
  without white space at either end, and the template of a configuration that
  \<open>validateEnv\<close> returns is trimmed and not empty.
\<close>

lemma trim_trim: "trim (trim s) = trim s"
proof -
  define t where "t = trim s"
  have a: "dropWhile isWhiteSpace t = t"
    unfolding t_def by (rule dropWhile_trim)
  have "rev t = dropWhile isWhiteSpace (rev (dropWhile isWhiteSpace s))"
    unfolding t_def trim_def by simp
  then have b: "dropWhile isWhiteSpace (rev t) = rev t"
    by (simp add: dropWhile_idem)
  have "trim t = rev (dropWhile isWhiteSpace (rev (dropWhile isWhiteSpace t)))"
    by (rule trim_def)
  with a b show ?thesis unfolding t_def by simp
qed

lemma trim_plain:
  assumes "\<forall>c \<in> set s. \<not> isWhiteSpace c"
  shows "trim s = s"
proof (cases "s = []")
  case True
  then show ?thesis by (simp add: trim_def)
next
  case False
  with assms have "\<not> isWhiteSpace (hd s)" and "\<not> isWhiteSpace (last s)"
    by simp_all
  with False have a: "dropWhile isWhiteSpace s = s"
    and b: "dropWhile isWhiteSpace (rev s) = rev s"
    by (simp_all add: dropWhile_eq_self_iff hd_rev)
  show ?thesis unfolding trim_def a b by simp
qed

lemma whiteSpace_code: "isWhiteSpace c \<Longrightarrow> (of_char c :: nat) \<in> {9, 10, 11, 12, 13, 32, 160}"
  by (auto simp: isWhiteSpace_def)

lemma toUpperChar_plain: "isAlnum c \<Longrightarrow> \<not> isWhiteSpace (toUpperChar c)"
  by (auto simp: isAlnum_def toUpperChar_def Let_def dest!: whiteSpace_code)

lemma toLowerChar_plain: "isAlnum c \<Longrightarrow> \<not> isWhiteSpace (toLowerChar c)"
  by (auto simp: isAlnum_def toLowerChar_def Let_def dest!: whiteSpace_code)

lemma deriveFirstNameFromUsername_trimmed:
  "trim (deriveFirstNameFromUsername u) = deriveFirstNameFromUsername u"
proof (rule trim_plain, rule ballI)
  fix c assume c: "c \<in> set (deriveFirstNameFromUsername u)"
  define namePart where "namePart =
     (case (case (indexOf (trim u) ''_'', indexOf (trim u) ''.'') of
              (None, None) \<Rightarrow> None
            | (Some i, None) \<Rightarrow> Some i
            | (None, Some j) \<Rightarrow> Some j
            | (Some i, Some j) \<Rightarrow> Some (min i j)) of
        None \<Rightarrow> take 20 (trim u)
      | Some i \<Rightarrow> if 0 < i then take i (trim u) else take 20 (trim u))"
  define cleaned where "cleaned = filter isAlnum namePart"
  have r: "deriveFirstNameFromUsername u =
     (if u = [] then [] else if trim u = [] then []
      else if length cleaned < 2 \<or> 30 < length cleaned then []
      else toUpperChar (hd cleaned) # toLowerCase (tl cleaned))"
    unfolding deriveFirstNameFromUsername_def Let_def cleaned_def namePart_def by simp
  from c have ne: "deriveFirstNameFromUsername u \<noteq> []" by auto
  with r have r': "deriveFirstNameFromUsername u = toUpperChar (hd cleaned) # toLowerCase (tl cleaned)"
    and len: "2 \<le> length cleaned"
    by (auto split: if_splits)
  from len have cne: "cleaned \<noteq> []" by auto
  have al: "\<forall>x \<in> set cleaned. isAlnum x" by (simp add: cleaned_def)
  from c r' have "c = toUpperChar (hd cleaned) \<or> c \<in> toLowerChar ` set (tl cleaned)"
    by (simp add: toLowerCase_def)
  moreover have "isAlnum (hd cleaned)" using al cne by simp
  moreover have "\<forall>x \<in> set (tl cleaned). isAlnum x" using al cne by (meson list.set_sel(2))
  ultimately show "\<not> isWhiteSpace c"
    using toUpperChar_plain toLowerChar_plain by auto
qed

lemma trim_Nil: "trim [] = []"
  by (simp add: trim_def)

lemma extractFirstName_trimmed: "trim (extractFirstName found u) = extractFirstName found u"
  by (simp add: extractFirstName_def Let_def trim_trim deriveFirstNameFromUsername_trimmed trim_Nil
      split: option.splits)

lemma validateEnv_draftMessage:
  assumes "validateEnv w e = Inr cfg"
  shows "trim (config.draftMessage cfg) = config.draftMessage cfg \<and> config.draftMessage cfg \<noteq> []"
proof -
  from assms have a: "\<not> missingOrBlank (e ''DRAFT_MESSAGE'')"
    and b: "config.draftMessage cfg = (case e ''DRAFT_MESSAGE'' of None \<Rightarrow> [] | Some s \<Rightarrow> trim s)"
    unfolding validateEnv_def Let_def by (auto split: if_splits)
  from a obtain s where "e ''DRAFT_MESSAGE'' = Some s" "trim s \<noteq> []"
    by (auto simp: missingOrBlank_def split: option.splits)
  with b show ?thesis by (simp add: trim_trim)
qed

text \<open>
  Claim C8. \<open>processUser\<close> builds the message from the name that
  \<open>extractFirstName\<close> returns and the template of the configuration that
  \<open>validateEnv\<close> returned. For every such name and template and every separator
  character: an empty name gives the template verbatim; where the separator does not occur
  in the template, the message is the name, the separator, a space and the template; where
  it occurs, the message is the template with a space and the name put in just before the
  first separator. In particular the template \<open>Hey! Thanks for following.\<close> with the
  name \<open>John\<close> gives \<open>Hey John! Thanks for following.\<close>
\<close>

theorem name_goes_before_first_separator:
  assumes "validateEnv w e = Inr cfg"
    and "nm = extractFirstName found u"
    and "template = config.draftMessage cfg"
  shows "(nm = [] \<longrightarrow> buildDraftMessage nm template [c] = template)
   \<and> (nm \<noteq> [] \<and> c \<notin> set template \<longrightarrow>
        buildDraftMessage nm template [c] = nm @ [c] @ '' '' @ template)
   \<and> (nm \<noteq> [] \<and> c \<in> set template \<longrightarrow>
        (\<exists>before after. template = before @ c # after \<and> c \<notin> set before
           \<and> buildDraftMessage nm template [c] = before @ '' '' @ nm @ c # after))
   \<and> buildDraftMessage ''John'' ''Hey! Thanks for following.'' ''!''
        = ''Hey John! Thanks for following.''"
proof -
  have n: "trim nm = nm"
    unfolding assms(2) by (rule extractFirstName_trimmed)
  from validateEnv_draftMessage [OF assms(1)] assms(3)
  have t: "trim template = template" and ne: "template \<noteq> []"
    by simp_all
  note cases = buildDraftMessage_cases [of nm template c, unfolded n t]
  show ?thesis using cases ne by blast
qed


theorem name_goes_before_first_separator_witness:
  "validateEnv granted sampleEnv = Inr draftModeConfig
   \<and> config.draftMessage draftModeConfig = ''Hey! Thanks for following.''
   \<and> extractFirstName (Some '' John '') ''john_doe'' = ''John''
   \<and> buildDraftMessage ''John'' ''Hey! Thanks for following.'' ''!''
       = ''Hey John! Thanks for following.''
   \<and> validateEnv granted (sampleEnv(''DRAFT_MESSAGE'' \<mapsto> '' Hey there ''))
       = Inr (draftModeConfig\<lparr> config.draftMessage := ''Hey there'' \<rparr>)
   \<and> extractFirstName None ''john_doe'' = ''John''
   \<and> buildDraftMessage ''John'' ''Hey there'' ''!'' = ''John! Hey there''
   \<and> extractFirstName (Some '' '') ''j'' = []
   \<and> buildDraftMessage [] ''Hey there'' ''!'' = ''Hey there''"
proof -
  have v1: "validateEnv granted sampleEnv = Inr draftModeConfig"
    by code_simp
  have v2: "validateEnv granted (sampleEnv(''DRAFT_MESSAGE'' \<mapsto> '' Hey there ''))
       = Inr (draftModeConfig\<lparr> config.draftMessage := ''Hey there'' \<rparr>)"
    by code_simp
  have n1: "''John'' = extractFirstName (Some '' John '') ''john_doe''"
    and n2: "''John'' = extractFirstName None ''john_doe''"
    and n3: "[] = extractFirstName (Some '' '') ''j''"
    by code_simp+
  have d1: "''Hey! Thanks for following.'' = config.draftMessage draftModeConfig"
    and d2: "''Hey there'' = config.draftMessage (draftModeConfig\<lparr> config.draftMessage := ''Hey there'' \<rparr>)"
    by (simp_all add: draftModeConfig_def)
  note t1 = name_goes_before_first_separator [OF v1 n1 d1, of "CHR ''!''"]
  note t2 = name_goes_before_first_separator [OF v2 n2 d2, of "CHR ''!''"]
  note t3 = name_goes_before_first_separator [OF v2 n3 d2, of "CHR ''!''"]
  have b1: "buildDraftMessage ''John'' ''Hey! Thanks for following.'' ''!''
       = ''Hey John! Thanks for following.''"
    using t1 by simp
  have b2: "buildDraftMessage ''John'' ''Hey there'' ''!'' = ''John! Hey there''"
    using t2 by simp
  have b3: "buildDraftMessage [] ''Hey there'' ''!'' = ''Hey there''"
    using t3 by simp
  show ?thesis using v1 v2 n1 [symmetric] n2 [symmetric] n3 [symmetric] d1 [symmetric] b1 b2 b3
    by simp
qed

section \<open>Properties of the drafter and of the run loop\<close>

lemma draftMessage_success_iff:
  "draft_result.success (fst (draftMessage e pg m so)) \<longleftrightarrow>
     m \<noteq> [] \<and> trim m \<noteq> [] \<and> \<not> locateThrows pg \<and> inputFound pg \<and> \<not> typingThrows pg
     \<and> renderedText pg \<noteq> [] \<and> trim (renderedText pg) = trim m"
  by (auto simp: draftMessage_def Let_def draftFailure_def drafted_def sendMessage_def
      confirmMessageSent_def split: option.splits prod.splits)

lemma draftMessage_calls_bound:
  "sendCalls (snd (draftMessage e pg m so)) \<le> 2
   \<and> confirmCalls (snd (draftMessage e pg m so)) \<le> sendCalls (snd (draftMessage e pg m so))"
  by (simp add: draftMessage_def Let_def sendMessage_def confirmMessageSent_def
      split: option.splits prod.splits)

lemma draftMessage_send:
  assumes "draft_result.success (fst (draftMessage e pg m (Some True)))"
  shows "draftMessage e pg m (Some True) =
     (if sendOk pg 0
      then (if confirmOk pg 0
            then (drafted (Some True) m (renderedText pg), \<lparr> sendCalls = 1, confirmCalls = 1 \<rparr>)
            else if sendOk pg 1
            then (drafted (Some (confirmOk pg 1)) m (renderedText pg),
                  \<lparr> sendCalls = 2, confirmCalls = 2 \<rparr>)
            else (drafted (Some False) m (renderedText pg), \<lparr> sendCalls = 2, confirmCalls = 1 \<rparr>))
      else (drafted (Some False) m (renderedText pg), \<lparr> sendCalls = 1, confirmCalls = 0 \<rparr>))"
  using assms unfolding draftMessage_success_iff
  by (simp add: draftMessage_def Let_def sendMessage_def confirmMessageSent_def)

lemma processUser_success:
  assumes "user_result.success (processUser e w r cfg)"
  shows "\<not> skipped (processUser e w r cfg)"
    and "draft_result.success (fst (draftMessage e (page w)
            (buildDraftMessage (firstName w) (config.draftMessage cfg) ''!'')
            (Some (config.sendMessage cfg))))"
    and "config.sendMessage cfg \<Longrightarrow> user_result.sent (processUser e w r cfg) =
           Some (draft_result.sent (fst (draftMessage e (page w)
            (buildDraftMessage (firstName w) (config.draftMessage cfg) ''!'')
            (Some True))) = Some True)"
  using assms
  by (auto simp: processUser_def Let_def split: if_splits option.splits jsval.splits)


lemma runIteration_reports:
  "\<exists>rep. reports (fst (runIteration e cfg sid st r w)) = reports st @ [rep]
         \<and> sentBefore rep = sentCount st \<and> draftedBefore rep = draftedCount st
         \<and> target rep = row.rowIndex r"
  by (simp add: runIteration_def Let_def)

lemma runIteration_status_sent:
  assumes "config.sendMessage cfg" and "user_result.success (processUser e w r cfg)"
    and "user_result.sent (processUser e w r cfg) = Some True"
  shows "map statusWritten (reports (fst (runIteration e cfg sid st r w)))
           = map statusWritten (reports st) @ [''Sent'']"
  using assms processUser_success(1) [OF assms(2)]
  by (simp add: runIteration_def Let_def)

lemma runIteration_counters:
  "sentCount (fst (runIteration e cfg sid st r w)) \<le> sentCount st + 1"
  "sentCount st \<le> sentCount (fst (runIteration e cfg sid st r w))"
  "draftedCount (fst (runIteration e cfg sid st r w)) \<le> draftedCount st + 1"
  "config.sendMessage cfg \<Longrightarrow> draftedCount (fst (runIteration e cfg sid st r w)) = draftedCount st"
  "\<not> config.sendMessage cfg \<Longrightarrow> sentCount (fst (runIteration e cfg sid st r w)) = sentCount st"
  by (simp_all add: runIteration_def Let_def)

lemma runLoop_reports:
  "\<exists>new. reports (runLoop e cfg sid st ts) = reports st @ new \<and> list_all (underLimit cfg) new"
proof (induction ts arbitrary: st)
  case Nil
  then show ?case by simp
next
  case (Cons a ts)
  obtain r w where a: "a = (r, w)" by (cases a)
  obtain st' k where it: "runIteration e cfg sid st r w = (st', k)"
    by (cases "runIteration e cfg sid st r w")
  from runIteration_reports [of e cfg sid st r w] it obtain rep where
    rep: "reports st' = reports st @ [rep]" "sentBefore rep = sentCount st"
      "draftedBefore rep = draftedCount st"
    by auto
  show ?case
  proof (cases "limitReached cfg st \<or> newPageThrows w")
    case True
    then show ?thesis using a by auto
  next
    case False
    then have u: "underLimit cfg rep"
      using rep by (auto simp: underLimit_def limitReached_def split: if_splits)
    show ?thesis
    proof (cases "\<not> k \<and> limitReached cfg st'")
      case True
      then show ?thesis using a it False rep u by auto
    next
      case stop: False
      from Cons.IH [of st'] obtain new where
        new: "reports (runLoop e cfg sid st' ts) = reports st' @ new" "list_all (underLimit cfg) new"
        by blast
      from stop False a it have "runLoop e cfg sid st (a # ts) = runLoop e cfg sid st' ts"
        by auto
      with new rep u show ?thesis by simp
    qed
  qed
qed

lemma runLoop_drafted_unchanged:
  "config.sendMessage cfg \<Longrightarrow> draftedCount (runLoop e cfg sid st ts) = draftedCount st"
proof (induction ts arbitrary: st)
  case Nil
  then show ?case by simp
next
  case (Cons a ts)
  obtain r w where a: "a = (r, w)" by (cases a)
  obtain st' k where it: "runIteration e cfg sid st r w = (st', k)"
    by (cases "runIteration e cfg sid st r w")
  have d: "draftedCount st' = draftedCount st"
    using runIteration_counters(4) [OF Cons.prems, of e sid st r w] it by simp
  show ?case
    using a it d Cons.IH [OF Cons.prems, of st'] by simp
qed

lemma runLoop_sent_bound:
  assumes "config.maxDraft cfg = Some m" and "config.sendMessage cfg"
  shows "int (sentCount st) \<le> m \<Longrightarrow> int (sentCount (runLoop e cfg sid st ts)) \<le> m"
proof (induction ts arbitrary: st)
  case Nil
  then show ?case by simp
next
  case (Cons a ts)
  obtain r w where a: "a = (r, w)" by (cases a)
  obtain st' k where it: "runIteration e cfg sid st r w = (st', k)"
    by (cases "runIteration e cfg sid st r w")
  show ?case
  proof (cases "limitReached cfg st \<or> newPageThrows w")
    case True
    then show ?thesis using a Cons.prems by auto
  next
    case False
    then have "int (sentCount st) < m"
      using assms by (simp add: limitReached_def reached_def)
    moreover have "sentCount st' \<le> sentCount st + 1"
      using runIteration_counters(1) [of e cfg sid st r w] it by simp
    ultimately have b: "int (sentCount st') \<le> m" by simp
    show ?thesis
      using a it False b Cons.IH [OF b] by simp
  qed
qed

lemma runLoop_drafted_bound:
  assumes "config.maxDraft cfg = Some m" and "\<not> config.sendMessage cfg"
  shows "int (draftedCount st) \<le> m \<Longrightarrow> int (draftedCount (runLoop e cfg sid st ts)) \<le> m"
proof (induction ts arbitrary: st)
  case Nil
  then show ?case by simp
next
  case (Cons a ts)
  obtain r w where a: "a = (r, w)" by (cases a)
  obtain st' k where it: "runIteration e cfg sid st r w = (st', k)"
    by (cases "runIteration e cfg sid st r w")
  show ?case
  proof (cases "limitReached cfg st \<or> newPageThrows w")
    case True
    then show ?thesis using a Cons.prems by auto
  next
    case False
    then have "int (draftedCount st) < m"
      using assms by (simp add: limitReached_def reached_def)
    moreover have "draftedCount st' \<le> draftedCount st + 1"
      using runIteration_counters(3) [of e cfg sid st r w] it by simp
    ultimately have b: "int (draftedCount st') \<le> m" by simp
    show ?thesis
      using a it False b Cons.IH [OF b] by simp
  qed
qed

lemma runLoop_at_limit: "limitReached cfg st \<Longrightarrow> runLoop e cfg sid st ts = st"
  by (cases ts) auto


section \<open>Properties of the write-back\<close>

lemma padTo7_length: "7 \<le> length (padTo7 r)"
  by (simp add: padTo7_def)

lemma cell_padTo7: "cell (padTo7 r) i = cell r i"
  by (auto simp: cell_def padTo7_def nth_append)

lemma updateDraftData_preserves:
  assumes "statusArg = Some ''Send Failed'' \<or> statusArg = Some ''Skipped''"
    and "\<not> getThrows a"
    and "updateDraftData a sh i sid ds msg statusArg = Inr sh'"
  shows "cell (sh' i) DATE_SENT = cell (sh i) DATE_SENT \<and> cell (sh' i) MESSAGE = cell (sh i) MESSAGE"
proof -
  have l: "7 \<le> length (padTo7 (sh i))" by (rule padTo7_length)
  have c: "padTo7 (sh i) ! 4 = cell (sh i) 4" "padTo7 (sh i) ! 5 = cell (sh i) 5"
    using cell_padTo7 [of "sh i" 4] cell_padTo7 [of "sh i" 5] l by (simp_all add: cell_def)
  from assms l c show ?thesis
    by (auto simp: updateDraftData_def Let_def orEmpty_def cell_def SESSION_ID_def
        DATE_SENT_def MESSAGE_def STATUS_def nth_append
        split: option.splits if_splits)
qed

lemma updateDraftData_overwrites:
  assumes "statusArg \<noteq> Some ''Send Failed''" and "statusArg \<noteq> Some ''Skipped''"
    and "updateDraftData a sh i sid (Some ds) (Some msg) statusArg = Inr sh'"
  shows "cell (sh' i) DATE_SENT = ds \<and> cell (sh' i) MESSAGE = msg"
proof -
  have l: "7 \<le> length (padTo7 (sh i))" by (rule padTo7_length)
  from assms l show ?thesis
    by (auto simp: updateDraftData_def Let_def cell_def SESSION_ID_def
        DATE_SENT_def MESSAGE_def STATUS_def nth_append
        split: option.splits if_splits)
qed

text \<open>
  Claim C2 against the code. Row 2 of the example sheet holds a Date Sent and a Message.
  The write-back with status \<open>Failed\<close> that \<open>run\<close> makes for a target whose conversation
  cannot be opened, \<open>updateDraftData(rowIndex, sessionId, '', '', 'Failed')\<close>, leaves both
  cells empty: only \<open>Send Failed\<close> and \<open>Skipped\<close> keep the stored values. The same call
  with status \<open>Skipped\<close> keeps them.
\<close>

theorem failed_writeback_clears_date_and_message:
  "storedDateAndMessage (Inr exampleSheet) 2
     = Some (''2024-02-02T10:00:00.000Z'', ''Hey John! Thanks for following.'')
   \<and> storedDateAndMessage
         (updateDraftData workingApi exampleSheet 2 (Some ''1700000000000'') (Some []) (Some [])
            (Some ''Failed'')) 2
       = Some ([], [])
   \<and> storedDateAndMessage
         (updateDraftData workingApi exampleSheet 2 (Some ''1700000000000'') (Some []) (Some [])
            (Some ''Skipped'')) 2
       = Some (''2024-02-02T10:00:00.000Z'', ''Hey John! Thanks for following.'')
   \<and> validateEnv granted sampleEnv = Inr draftModeConfig
   \<and> storedDateAndMessage
         (Inr (sheetNow (fst (runIteration sampleEnv draftModeConfig ''1700000000000''
                  (initialState exampleSheet) (createMockRow 0 ''user1'' ''likes'' ''Pending'')
                  closedProfile)))) 2
       = Some ([], [])"
  by code_simp

section \<open>Properties of the run\<close>

text \<open>
  Claim C3 against the code. In send mode a target whose conversation cannot be opened ends
  with status \<open>Failed\<close>, and \<open>run\<close> does not call \<open>userPage.close()\<close> for it: the test
  \<open>draftingSucceeded && messageSent\<close> fails and the tab stays open. In draft mode the
  same target has its tab closed.
\<close>

theorem failed_target_keeps_tab_in_send_mode:
  "validateEnv granted sendModeEnv = Inr sendModeConfig
   \<and> reports (fst (runIteration sendModeEnv sendModeConfig ''1700000000000''
         (initialState exampleSheet) (createMockRow 0 ''user1'' ''likes'' ''Pending'')
         closedProfile))
       = [\<lparr> target = 2, sentBefore = 0, draftedBefore = 0, statusWritten = ''Failed'',
             closeCalled = False, tabClosed = False \<rparr>]
   \<and> validateEnv granted sampleEnv = Inr draftModeConfig
   \<and> reports (fst (runIteration sampleEnv draftModeConfig ''1700000000000''
         (initialState exampleSheet) (createMockRow 0 ''user1'' ''likes'' ''Pending'')
         closedProfile))
       = [\<lparr> target = 2, sentBefore = 0, draftedBefore = 0, statusWritten = ''Failed'',
             closeCalled = True, tabClosed = True \<rparr>]"
  by code_simp

text \<open>
  Claim C6. \<open>draftMessage\<close> calls \<open>sendMessage\<close> at most twice, whatever the page does.
  With sending enabled and the draft verified: a first confirmation that fails is followed
  by exactly one more call of \<open>sendMessage\<close>; if that retry is confirmed the result has
  \<open>sent = true\<close> after two submissions and two confirmations, and \<open>run\<close> writes the
  status \<open>Sent\<close>; if the second confirmation fails too the result has \<open>sent = false\<close>.
\<close>

theorem send_is_retried_once:
  "sendCalls (snd (draftMessage e pg m so)) \<le> 2
   \<and> (draft_result.success (fst (draftMessage e pg m (Some True)))
        \<and> sendOk pg 0 \<and> \<not> confirmOk pg 0 \<longrightarrow>
        sendCalls (snd (draftMessage e pg m (Some True))) = 2)
   \<and> (draft_result.success (fst (draftMessage e pg m (Some True)))
        \<and> sendOk pg 0 \<and> \<not> confirmOk pg 0 \<and> sendOk pg 1 \<and> confirmOk pg 1 \<longrightarrow>
        draft_result.sent (fst (draftMessage e pg m (Some True))) = Some True
        \<and> sendCalls (snd (draftMessage e pg m (Some True))) = 2
        \<and> confirmCalls (snd (draftMessage e pg m (Some True))) = 2)
   \<and> (draft_result.success (fst (draftMessage e pg m (Some True)))
        \<and> sendOk pg 0 \<and> \<not> confirmOk pg 0 \<and> sendOk pg 1 \<and> \<not> confirmOk pg 1 \<longrightarrow>
        draft_result.sent (fst (draftMessage e pg m (Some True))) = Some False
        \<and> sendCalls (snd (draftMessage e pg m (Some True))) = 2)
   \<and> (draft_result.success (fst (draftMessage e pg m (Some True)))
        \<and> sendOk pg 0 \<and> confirmOk pg 0 \<longrightarrow>
        draft_result.sent (fst (draftMessage e pg m (Some True))) = Some True
        \<and> sendCalls (snd (draftMessage e pg m (Some True))) = 1)
   \<and> (config.sendMessage cfg \<and> user_result.success (processUser e w r cfg)
        \<and> sendOk (page w) 0 \<and> \<not> confirmOk (page w) 0
        \<and> sendOk (page w) 1 \<and> confirmOk (page w) 1 \<longrightarrow>
        user_result.sent (processUser e w r cfg) = Some True
        \<and> map statusWritten (reports (fst (runIteration e cfg sid st r w)))
            = map statusWritten (reports st) @ [''Sent''])"
proof (intro conjI impI)
  show "sendCalls (snd (draftMessage e pg m so)) \<le> 2"
    using draftMessage_calls_bound [of e pg m so] by simp
next
  assume h: "draft_result.success (fst (draftMessage e pg m (Some True)))
        \<and> sendOk pg 0 \<and> \<not> confirmOk pg 0"
  then show "sendCalls (snd (draftMessage e pg m (Some True))) = 2"
    using draftMessage_send [of e pg m] by simp
next
  assume h: "draft_result.success (fst (draftMessage e pg m (Some True)))
        \<and> sendOk pg 0 \<and> \<not> confirmOk pg 0 \<and> sendOk pg 1 \<and> confirmOk pg 1"
  then have d: "draftMessage e pg m (Some True)
      = (drafted (Some True) m (renderedText pg), \<lparr> sendCalls = 2, confirmCalls = 2 \<rparr>)"
    using draftMessage_send [of e pg m] by simp
  show "draft_result.sent (fst (draftMessage e pg m (Some True))) = Some True"
    by (simp add: d drafted_def)
  show "sendCalls (snd (draftMessage e pg m (Some True))) = 2"
    by (simp add: d)
  show "confirmCalls (snd (draftMessage e pg m (Some True))) = 2"
    by (simp add: d)
next
  assume h: "draft_result.success (fst (draftMessage e pg m (Some True)))
        \<and> sendOk pg 0 \<and> \<not> confirmOk pg 0 \<and> sendOk pg 1 \<and> \<not> confirmOk pg 1"
  then have d: "draftMessage e pg m (Some True)
      = (drafted (Some False) m (renderedText pg), \<lparr> sendCalls = 2, confirmCalls = 2 \<rparr>)"
    using draftMessage_send [of e pg m] by simp
  show "draft_result.sent (fst (draftMessage e pg m (Some True))) = Some False"
    by (simp add: d drafted_def)
  show "sendCalls (snd (draftMessage e pg m (Some True))) = 2"
    by (simp add: d)
next
  assume h: "draft_result.success (fst (draftMessage e pg m (Some True)))
        \<and> sendOk pg 0 \<and> confirmOk pg 0"
  then have d: "draftMessage e pg m (Some True)
      = (drafted (Some True) m (renderedText pg), \<lparr> sendCalls = 1, confirmCalls = 1 \<rparr>)"
    using draftMessage_send [of e pg m] by simp
  show "draft_result.sent (fst (draftMessage e pg m (Some True))) = Some True"
    by (simp add: d drafted_def)
  show "sendCalls (snd (draftMessage e pg m (Some True))) = 1"
    by (simp add: d)
next
  assume h: "config.sendMessage cfg \<and> user_result.success (processUser e w r cfg)
        \<and> sendOk (page w) 0 \<and> \<not> confirmOk (page w) 0
        \<and> sendOk (page w) 1 \<and> confirmOk (page w) 1"
  let ?m = "buildDraftMessage (firstName w) (config.draftMessage cfg) ''!''"
  from h have s: "config.sendMessage cfg" and u: "user_result.success (processUser e w r cfg)"
    by simp_all
  from processUser_success(2) [OF u] s
  have ok: "draft_result.success (fst (draftMessage e (page w) ?m (Some True)))"
    by simp
  with h have d: "draftMessage e (page w) ?m (Some True)
      = (drafted (Some True) ?m (renderedText (page w)), \<lparr> sendCalls = 2, confirmCalls = 2 \<rparr>)"
    using draftMessage_send [of e "page w" ?m] by simp
  from processUser_success(3) [OF u s]
  show sent: "user_result.sent (processUser e w r cfg) = Some True"
    by (simp add: d drafted_def)
  show "map statusWritten (reports (fst (runIteration e cfg sid st r w)))
            = map statusWritten (reports st) @ [''Sent'']"
    by (rule runIteration_status_sent [OF s u sent])
qed

theorem send_is_retried_once_witness:
  "draft_result.success (fst (draftMessage sendModeEnv retryPage
       ''Hey John! Thanks for following.'' (Some True)))
   \<and> sendOk retryPage 0 \<and> \<not> confirmOk retryPage 0 \<and> sendOk retryPage 1 \<and> confirmOk retryPage 1
   \<and> draft_result.sent (fst (draftMessage sendModeEnv retryPage
       ''Hey John! Thanks for following.'' (Some True))) = Some True
   \<and> sendCalls (snd (draftMessage sendModeEnv retryPage
       ''Hey John! Thanks for following.'' (Some True))) = 2
   \<and> config.sendMessage sendModeConfig
   \<and> user_result.success (processUser sendModeEnv openProfile
         (createMockRow 0 ''user1'' ''likes'' ''Pending'') sendModeConfig)
   \<and> map statusWritten (reports (fst (runIteration sendModeEnv sendModeConfig ''1700000000000''
         (initialState exampleSheet) (createMockRow 0 ''user1'' ''likes'' ''Pending'')
         openProfile)))
       = [''Sent'']"
proof -
  let ?m = "''Hey John! Thanks for following.''"
  let ?r = "createMockRow 0 ''user1'' ''likes'' ''Pending''"
  have p: "sendOk retryPage 0" "\<not> confirmOk retryPage 0" "sendOk retryPage 1"
      "confirmOk retryPage 1"
    by (simp_all add: retryPage_def)
  have pw: "page openProfile = retryPage"
    by (simp add: openProfile_def closedProfile_def)
  have ok: "draft_result.success (fst (draftMessage sendModeEnv retryPage ?m (Some True)))"
    by code_simp
  have s: "config.sendMessage sendModeConfig"
    by (simp add: sendModeConfig_def)
  have u: "user_result.success (processUser sendModeEnv openProfile ?r sendModeConfig)"
    by code_simp
  have r0: "reports (initialState exampleSheet) = []"
    by (simp add: initialState_def)
  note t = send_is_retried_once [of sendModeEnv retryPage ?m "Some True" sendModeConfig
      openProfile ?r "''1700000000000''" "initialState exampleSheet"]
  from t ok p have a: "draft_result.sent (fst (draftMessage sendModeEnv retryPage ?m (Some True)))
       = Some True" "sendCalls (snd (draftMessage sendModeEnv retryPage ?m (Some True))) = 2"
    by simp_all
  from t s u p pw r0
  have b: "map statusWritten (reports (fst (runIteration sendModeEnv sendModeConfig
         ''1700000000000'' (initialState exampleSheet) ?r openProfile))) = [''Sent'']"
    by simp
  from ok p a s u b show ?thesis by simp
qed

text \<open>
  Claim C9. The loop tests its limit before it works on a target: a state in which the
  limit is reached is returned as it is, and every target the loop works on was met with
  the Sent counter (send mode) or the Drafted counter (draft mode) below \<open>maxDraft\<close>.
  In send mode no outcome changes the Drafted counter. Hence the Sent counter in send
  mode, and the Drafted counter in draft mode, never pass a limit they started under.
\<close>

theorem loop_stops_at_limit:
  "(limitReached cfg st \<longrightarrow> runLoop e cfg sid st ts = st)
   \<and> take (length (reports st)) (reports (runLoop e cfg sid st ts)) = reports st
   \<and> list_all (underLimit cfg) (drop (length (reports st)) (reports (runLoop e cfg sid st ts)))
   \<and> (config.sendMessage cfg \<longrightarrow>
        draftedCount (runLoop e cfg sid st ts) = draftedCount st
        \<and> draftedCount (fst (runIteration e cfg sid st r w)) = draftedCount st)
   \<and> (\<forall>m. config.maxDraft cfg = Some m \<and> config.sendMessage cfg \<and> int (sentCount st) \<le> m
        \<longrightarrow> int (sentCount (runLoop e cfg sid st ts)) \<le> m)
   \<and> (\<forall>m. config.maxDraft cfg = Some m \<and> \<not> config.sendMessage cfg
          \<and> int (draftedCount st) \<le> m
        \<longrightarrow> int (draftedCount (runLoop e cfg sid st ts)) \<le> m)"
proof -
  from runLoop_reports [of e cfg sid st ts] obtain new where
    new: "reports (runLoop e cfg sid st ts) = reports st @ new" "list_all (underLimit cfg) new"
    by blast
  have a: "take (length (reports st)) (reports (runLoop e cfg sid st ts)) = reports st"
    by (simp add: new(1))
  have b: "list_all (underLimit cfg)
             (drop (length (reports st)) (reports (runLoop e cfg sid st ts)))"
    by (simp add: new)
  show ?thesis
    using a b runLoop_at_limit [of cfg st e sid ts] runLoop_drafted_unchanged [of cfg e sid st ts]
      runIteration_counters(4) [of cfg e sid st r w]
      runLoop_sent_bound [of cfg _ st e sid ts] runLoop_drafted_bound [of cfg _ st e sid ts]
    by simp
qed

theorem loop_stops_at_limit_witness:
  "\<not> limitReached (sendModeConfig\<lparr> config.maxDraft := Some 1 \<rparr>) (initialState exampleSheet)
   \<and> config.sendMessage (sendModeConfig\<lparr> config.maxDraft := Some 1 \<rparr>)
   \<and> map target (reports (runLoop sendModeEnv (sendModeConfig\<lparr> config.maxDraft := Some 1 \<rparr>)
         ''1700000000000'' (initialState exampleSheet)
         [(createMockRow 0 ''user1'' ''likes'' ''Pending'', closedProfile),
          (createMockRow 1 ''user2'' ''likes'' ''Pending'', openProfile),
          (createMockRow 2 ''user3'' ''likes'' ''Pending'', openProfile)]))
       = [2, 3]
   \<and> int (sentCount (runLoop sendModeEnv (sendModeConfig\<lparr> config.maxDraft := Some 1 \<rparr>)
         ''1700000000000'' (initialState exampleSheet)
         [(createMockRow 0 ''user1'' ''likes'' ''Pending'', closedProfile),
          (createMockRow 1 ''user2'' ''likes'' ''Pending'', openProfile),
          (createMockRow 2 ''user3'' ''likes'' ''Pending'', openProfile)])) \<le> 1
   \<and> draftedCount (runLoop sendModeEnv (sendModeConfig\<lparr> config.maxDraft := Some 1 \<rparr>)
         ''1700000000000'' (initialState exampleSheet)
         [(createMockRow 0 ''user1'' ''likes'' ''Pending'', closedProfile),
          (createMockRow 1 ''user2'' ''likes'' ''Pending'', openProfile),
          (createMockRow 2 ''user3'' ''likes'' ''Pending'', openProfile)]) = 0
   \<and> limitReached (sendModeConfig\<lparr> config.maxDraft := Some 1 \<rparr>)
         ((initialState exampleSheet)\<lparr> sentCount := 1 \<rparr>)
   \<and> runLoop sendModeEnv (sendModeConfig\<lparr> config.maxDraft := Some 1 \<rparr>) ''1700000000000''
         ((initialState exampleSheet)\<lparr> sentCount := 1 \<rparr>)
         [(createMockRow 2 ''user3'' ''likes'' ''Pending'', openProfile)]
       = (initialState exampleSheet)\<lparr> sentCount := 1 \<rparr>"
proof -
  let ?cfg = "sendModeConfig\<lparr> config.maxDraft := Some 1 \<rparr>"
  let ?st = "initialState exampleSheet"
  let ?ts = "[(createMockRow 0 ''user1'' ''likes'' ''Pending'', closedProfile),
          (createMockRow 1 ''user2'' ''likes'' ''Pending'', openProfile),
          (createMockRow 2 ''user3'' ''likes'' ''Pending'', openProfile)]"
  have c: "config.sendMessage ?cfg" "config.maxDraft ?cfg = Some 1"
    by (simp_all add: sendModeConfig_def)
  have i: "sentCount ?st = 0" "draftedCount ?st = 0" "reports ?st = []"
    by (simp_all add: initialState_def)
  have n: "\<not> limitReached ?cfg ?st"
    by (simp add: limitReached_def reached_def c i)
  have l: "limitReached ?cfg (?st\<lparr> sentCount := 1 \<rparr>)"
    by (simp add: limitReached_def reached_def c)
  have run: "map target (reports (runLoop sendModeEnv ?cfg ''1700000000000'' ?st ?ts)) = [2, 3]"
    by code_simp
  note t = loop_stops_at_limit [of ?cfg ?st sendModeEnv "''1700000000000''" ?ts]
  note t' = loop_stops_at_limit [of ?cfg "?st\<lparr> sentCount := 1 \<rparr>" sendModeEnv
      "''1700000000000''" "[(createMockRow 2 ''user3'' ''likes'' ''Pending'', openProfile)]"]
  from t c i have a: "int (sentCount (runLoop sendModeEnv ?cfg ''1700000000000'' ?st ?ts)) \<le> 1"
      "draftedCount (runLoop sendModeEnv ?cfg ''1700000000000'' ?st ?ts) = 0"
    by simp_all
  from t' l have b: "runLoop sendModeEnv ?cfg ''1700000000000'' (?st\<lparr> sentCount := 1 \<rparr>)
         [(createMockRow 2 ''user3'' ''likes'' ''Pending'', openProfile)]
       = ?st\<lparr> sentCount := 1 \<rparr>"
    by simp
  from n c(1) run a l b show ?thesis by simp
qed

section \<open>The activate status in the two validators\<close>

lemma selectRows_returns: "\<exists>res. selectRows allRows a sm mp ef fs md = Inr res"
proof -
  let ?sp = "slice0 (getEligibleRowsByStatus allRows a sm (Some mp) {}) md"
  have "\<forall>x \<in> set ?sp. hasUsername x"
  proof
    fix x assume "x \<in> set ?sp"
    then have "x \<in> set (getEligibleRowsByStatus allRows a sm (Some mp) {})" by (rule slice0_set)
    then show "hasUsername x" by (rule getEligible_props(1))
  qed
  then have "those (map usernameKey ?sp) = Some (map keyOf ?sp)"
    by (rule those_usernameKey)
  then show ?thesis
    unfolding selectRows_def Let_def by simp
qed

lemma selectRows_not_isl: "\<not> isl (selectRows allRows a sm mp ef fs md)"
proof -
  from selectRows_returns obtain res where "selectRows allRows a sm mp ef fs md = Inr res"
    by blast
  then show ?thesis by simp
qed

lemma loadFilteredDatabase_fails_iff:
  "isl (loadFilteredDatabase e loaded) \<longleftrightarrow>
     isl (validateSourceMode e) \<or> isl (validateMaxProcess e) \<or> isl (validateFallbackStatus e)
     \<or> (\<forall>allRows. loaded \<noteq> LoadRows allRows)"
  by (auto simp: loadFilteredDatabase_def Let_def selectRows_not_isl
      split: sum.splits load_result.splits)

text \<open>
  Claim C10. Where \<open>ACTIVATE_STATUS\<close> is unset (in \<open>process.env\<close> a value that is not a
  string is an unset one), empty or blank, \<open>validateActivateStatus\<close> returns \<open>Pending\<close>,
  while \<open>validateEnv\<close> fails with the error that the activate status is required.
  Otherwise \<open>validateActivateStatus\<close> returns the trimmed value. It has no failing branch,
  and whether \<open>loadFilteredDatabase\<close> fails does not depend on \<open>ACTIVATE_STATUS\<close> at all.
\<close>

theorem missing_activate_status_defaults:
  "(missingOrBlank (e ''ACTIVATE_STATUS'') \<longrightarrow>
      validateActivateStatus e = ''Pending''
      \<and> (\<exists>errors. validateEnv w e = Inl errors \<and> ActivateStatusRequired \<in> set errors))
   \<and> (\<not> missingOrBlank (e ''ACTIVATE_STATUS'') \<longrightarrow>
      (\<exists>s. e ''ACTIVATE_STATUS'' = Some s \<and> validateActivateStatus e = trim s))
   \<and> (isl (loadFilteredDatabase (e(''ACTIVATE_STATUS'' := v)) loaded)
        \<longleftrightarrow> isl (loadFilteredDatabase e loaded))"
proof (intro conjI impI)
  assume m: "missingOrBlank (e ''ACTIVATE_STATUS'')"
  then show "validateActivateStatus e = ''Pending''"
    by (auto simp: missingOrBlank_def validateActivateStatus_def split: option.splits)
  from m show "\<exists>errors. validateEnv w e = Inl errors \<and> ActivateStatusRequired \<in> set errors"
    unfolding validateEnv_def Let_def by simp
next
  assume "\<not> missingOrBlank (e ''ACTIVATE_STATUS'')"
  then show "\<exists>s. e ''ACTIVATE_STATUS'' = Some s \<and> validateActivateStatus e = trim s"
    by (auto simp: missingOrBlank_def validateActivateStatus_def split: option.splits)
next
  let ?e = "e(''ACTIVATE_STATUS'' := v)"
  have "validateSourceMode ?e = validateSourceMode e"
    by (simp add: validateSourceMode_def)
  moreover have "validateMaxProcess ?e = validateMaxProcess e"
    by (simp add: validateMaxProcess_def)
  moreover have "validateFallbackStatus ?e = validateFallbackStatus e"
    by (simp add: validateFallbackStatus_def parseEnableFallback_def)
  ultimately show "isl (loadFilteredDatabase ?e loaded) \<longleftrightarrow> isl (loadFilteredDatabase e loaded)"
    by (simp add: loadFilteredDatabase_fails_iff)
qed

theorem missing_activate_status_defaults_witness:
  "missingOrBlank ((sampleEnv(''ACTIVATE_STATUS'' := None)) ''ACTIVATE_STATUS'')
   \<and> validateActivateStatus (sampleEnv(''ACTIVATE_STATUS'' := None)) = ''Pending''
   \<and> validateEnv granted (sampleEnv(''ACTIVATE_STATUS'' := None)) = Inl [ActivateStatusRequired]
   \<and> missingOrBlank ((sampleEnv(''ACTIVATE_STATUS'' \<mapsto> ''  '')) ''ACTIVATE_STATUS'')
   \<and> validateActivateStatus (sampleEnv(''ACTIVATE_STATUS'' \<mapsto> ''  '')) = ''Pending''
   \<and> \<not> missingOrBlank ((sampleEnv(''ACTIVATE_STATUS'' \<mapsto> '' Queued '')) ''ACTIVATE_STATUS'')
   \<and> validateActivateStatus (sampleEnv(''ACTIVATE_STATUS'' \<mapsto> '' Queued '')) = ''Queued''
   \<and> \<not> isl (loadFilteredDatabase (sampleEnv(''ACTIVATE_STATUS'' := None)) (LoadRows []))"
proof -
  let ?e1 = "sampleEnv(''ACTIVATE_STATUS'' := None)"
  let ?e2 = "sampleEnv(''ACTIVATE_STATUS'' \<mapsto> ''  '')"
  let ?e3 = "sampleEnv(''ACTIVATE_STATUS'' \<mapsto> '' Queued '')"
  have m1: "missingOrBlank (?e1 ''ACTIVATE_STATUS'')"
    by (simp add: missingOrBlank_def)
  have m2: "missingOrBlank (?e2 ''ACTIVATE_STATUS'')"
    by code_simp
  have m3: "\<not> missingOrBlank (?e3 ''ACTIVATE_STATUS'')"
    by code_simp
  have t3: "trim '' Queued '' = ''Queued''"
    by code_simp
  have v: "validateEnv granted ?e1 = Inl [ActivateStatusRequired]"
    by code_simp
  have ok: "\<not> isl (loadFilteredDatabase sampleEnv (LoadRows []))"
    by code_simp
  note t1 = missing_activate_status_defaults [of ?e1 granted None "LoadRows []"]
  note t2 = missing_activate_status_defaults [of ?e2 granted None "LoadRows []"]
  note t3' = missing_activate_status_defaults [of ?e3 granted None "LoadRows []"]
  note t4 = missing_activate_status_defaults [of sampleEnv granted None "LoadRows []"]
  from t1 m1 have a: "validateActivateStatus ?e1 = ''Pending''" by simp
  from t2 m2 have b: "validateActivateStatus ?e2 = ''Pending''" by simp
  from t3' m3 t3 have c: "validateActivateStatus ?e3 = ''Queued''" by auto
  from t4 ok have d: "\<not> isl (loadFilteredDatabase ?e1 (LoadRows []))" by simp
  from m1 a v m2 b m3 c d show ?thesis by simp
qed

end
